theory Spec2Isabelle
  imports Main
begin

section \<open>Values, rows and effects\<close>

text \<open>
  The two modules of the repository are embedded here: the credential broker
  (\<^verbatim>\<open>src/lib/token.ts\<close>: \<^verbatim>\<open>getToken\<close>, \<^verbatim>\<open>getInstallationToken\<close>,
  \<^verbatim>\<open>getUserToken\<close>) and the tree cache (\<^verbatim>\<open>updateCache\<close>,
  \<^verbatim>\<open>getCachedCollection\<close>).

  Every function of the source is asynchronous, reads and writes the database and talks
  to external services. The embedding makes these effects explicit:
  \<^item> the database is a record of tables, each table a list of rows (order and
    duplicates are kept); a function takes the state and returns the new one;
  \<^item> every database statement, remote call, encryption, decryption, session lookup
    and clock reading appends one event to the \<open>trace\<close> of the state, in program order;
  \<^item> a thrown exception is the left injection of a sum, returned together with the
    state reached when it was thrown;
  \<^item> the services the code calls but does not define (the hosting API, the
    encryption helper, the session provider, the clock, Node's \<^verbatim>\<open>path\<close> module) are the
    fields of an environment record. A service whose answer may change from call to
    call takes the logical time of the call, the number of events so far, as its
    first argument.

  The record fields carry a prefix naming their record, since several rows of the source
  share field names (\<^verbatim>\<open>path\<close>, \<^verbatim>\<open>owner\<close>, \<^verbatim>\<open>sha\<close>, \<^verbatim>\<open>id\<close>). The table schemas are not
  part of the source; each row has the columns the code reads or writes. Database
  statements are taken to succeed, and the per-request memoisation of React's
  \<^verbatim>\<open>cache\<close> wrapper is not modelled: every call is the first one of its request.
\<close>

datatype 'a remote = Throws | Returns 'a

text \<open>
  The source throws \<^verbatim>\<open>Error\<close> objects that differ in their message only:
  \<^item> \<open>NoActiveSubscription\<close>: \<^verbatim>\<open>No active subscription found for "owner".\<close>
  \<^item> \<open>NoPermission\<close>: \<^verbatim>\<open>You do not have permission to access "owner/repo".\<close>
  \<^item> \<open>InstallationNotFound\<close>: \<^verbatim>\<open>Installation token not found for "owner/repo".\<close>
  \<^item> \<open>DecryptionFailed\<close>: \<^verbatim>\<open>Token could not be retrieved and/or decrypted.\<close>
  \<^item> \<open>NotAuthenticated\<close>: \<^verbatim>\<open>User not found\<close>
  \<^item> \<open>NotLinked\<close>: \<^verbatim>\<open>User must be logged in with Github\<close>
  \<^item> \<open>NotFound\<close>: \<^verbatim>\<open>Token not found for user id.\<close>
  \<^item> \<open>RemoteQueryFailed\<close>: an exception raised by the Octokit client
  \<^item> \<open>TypeError\<close>: a property read on \<^verbatim>\<open>null\<close> or \<^verbatim>\<open>undefined\<close>
\<close>

datatype error =
    NoActiveSubscription
  | NoPermission
  | InstallationNotFound
  | DecryptionFailed
  | NotAuthenticated
  | NotLinked
  | NotFound
  | RemoteQueryFailed
  | TypeError

text \<open>
  \<^verbatim>\<open>User\<close>: the identifier and the optional linked external identity. The source tests
  \<^verbatim>\<open>user.githubId\<close> for truthiness, so an absent identity and the number \<^verbatim>\<open>0\<close> count
  alike as not linked.
\<close>

record User =
  user_id :: string
  user_githubId :: "nat option"

record Subscription =
  sub_owner :: string
  sub_status :: string

record Collaborator =
  col_owner :: string
  col_repo :: string

record InstallationToken =
  it_id :: nat
  it_installationId :: nat
  it_ciphertext :: string
  it_iv :: string
  it_expiresAt :: int

record UserToken =
  ut_userId :: string
  ut_ciphertext :: string
  ut_iv :: string

record CachedEntry =
  ce_owner :: string
  ce_repo :: string
  ce_branch :: string
  ce_path :: string
  ce_parentPath :: string
  ce_name :: string
  ce_type :: string
  ce_content :: "string option"
  ce_sha :: "string option"
  ce_lastUpdated :: int

text \<open>\<^verbatim>\<open>FileChange\<close> and the element type \<^verbatim>\<open>{ path: string }\<close> of \<^verbatim>\<open>removedFiles\<close>.\<close>

record FileChange =
  fc_path :: string
  fc_sha :: string

record RemovedFile =
  rf_path :: string

text \<open>
  A property read from a response object is absent (\<^verbatim>\<open>undefined\<close>), \<^verbatim>\<open>null\<close> or a value.
  The difference matters when the value is handed to the database: the query builder
  leaves an \<^verbatim>\<open>undefined\<close> key out of the \<^verbatim>\<open>SET\<close> clause of an update, so the column keeps
  what it had, while \<^verbatim>\<open>null\<close> is written as \<^verbatim>\<open>NULL\<close>. In an insert an \<^verbatim>\<open>undefined\<close> key takes
  the default of the column, which is taken to be \<^verbatim>\<open>NULL\<close> for the nullable columns
  \<^verbatim>\<open>content\<close> and \<^verbatim>\<open>sha\<close>.
\<close>

datatype 'a js = Undefined | Null | Value 'a

text \<open>
  \<open>column_of v\<close> is what an insert stores for \<open>v\<close>; \<open>written v old\<close> is what a column
  holding \<open>old\<close> holds after an update that sets it to \<open>v\<close>.
\<close>

definition column_of :: "'a js \<Rightarrow> 'a option" where
  "column_of v = (case v of Undefined \<Rightarrow> None | Null \<Rightarrow> None | Value x \<Rightarrow> Some x)"

definition written :: "'a js \<Rightarrow> 'a option \<Rightarrow> 'a option" where
  "written v old = (case v of Undefined \<Rightarrow> old | Null \<Rightarrow> None | Value x \<Rightarrow> Some x)"

text \<open>
  What the hosting API answers: the \<^verbatim>\<open>text\<close> and \<^verbatim>\<open>oid\<close> of an object (both absent when
  the object is not a blob, since the query asks for them \<^verbatim>\<open>... on Blob\<close>; the text of a
  binary blob is \<^verbatim>\<open>null\<close>), the children of a tree, and a minted access token.
\<close>

record FileData =
  fd_text :: "string js"
  fd_oid :: "string js"

record TreeEntry =
  te_name :: string
  te_path :: string
  te_type :: string
  te_object :: "FileData option"

record AccessToken =
  at_token :: string
  at_expires_at :: string

datatype table =
    SubscriptionTable
  | CollaboratorTable
  | InstallationTokenTable
  | UserTokenTable
  | CachedEntriesTable

datatype call =
    GetRepoInstallation string string
  | CreateInstallationAccessToken nat
  | GraphqlBlobs string string string "string list"
  | GraphqlTree string string string string

datatype event =
    DbQuery table
  | DbInsert table
  | DbUpdate table
  | DbDelete table
  | RemoteCall call
  | EncryptCall
  | DecryptCall
  | AuthCall
  | ClockRead

record world =
  subscriptionTable :: "Subscription list"
  collaboratorTable :: "Collaborator list"
  githubInstallationTokenTable :: "InstallationToken list"
  githubUserTokenTable :: "UserToken list"
  cachedEntriesTable :: "CachedEntry list"
  trace :: "event list"

text \<open>
  The environment. \<open>getRepoInstallation\<close> answers the identifier
  \<^verbatim>\<open>repoInstallation.data.id\<close>, or nothing where the source tests
  \<^verbatim>\<open>!repoInstallation\<close>. \<open>graphql_blobs\<close> answers, for the token, owner, repository and
  list of expressions, the objects \<^verbatim>\<open>file0\<close>, \<^verbatim>\<open>file1\<close>, ... of the response in this
  order (\<^verbatim>\<open>null\<close> is \<open>None\<close>); \<open>graphql_tree\<close> answers
  \<^verbatim>\<open>response.repository?.object?.entries\<close>. \<open>Date_getTime\<close> is
  \<^verbatim>\<open>new Date(text).getTime()\<close>, in milliseconds.
\<close>

record env =
  dirname :: "string \<Rightarrow> string"
  basename :: "string \<Rightarrow> string"
  Date_now :: "nat \<Rightarrow> int"
  Date_getTime :: "string \<Rightarrow> int"
  decrypt :: "string \<Rightarrow> string \<Rightarrow> string option"
  encrypt :: "nat \<Rightarrow> string \<Rightarrow> string \<times> string"
  getAuth :: "nat \<Rightarrow> User option"
  getRepoInstallation :: "nat \<Rightarrow> string \<Rightarrow> string \<Rightarrow> nat option remote"
  createInstallationAccessToken :: "nat \<Rightarrow> nat \<Rightarrow> AccessToken remote"
  graphql_blobs ::
    "nat \<Rightarrow> string \<Rightarrow> string \<Rightarrow> string \<Rightarrow> string list \<Rightarrow> FileData option list remote"
  graphql_tree ::
    "nat \<Rightarrow> string \<Rightarrow> string \<Rightarrow> string \<Rightarrow> string \<Rightarrow> TreeEntry list option remote"

definition tick :: "world \<Rightarrow> nat" where
  "tick s = length (trace s)"

definition emit :: "event \<Rightarrow> world \<Rightarrow> world" where
  "emit e s = s\<lparr>trace := trace s @ [e]\<rparr>"

text \<open>JavaScript truthiness of an optional number and of an optional string.\<close>

definition truthy_num :: "nat option \<Rightarrow> bool" where
  "truthy_num v = (case v of None \<Rightarrow> False | Some n \<Rightarrow> n \<noteq> 0)"

definition truthy_str :: "string option \<Rightarrow> bool" where
  "truthy_str v = (case v of None \<Rightarrow> False | Some t \<Rightarrow> t \<noteq> [])"

section \<open>The credential broker\<close>

text \<open>
  \<^verbatim>\<open>if (!token) throw new Error(...); return token;\<close> after a decryption: \<^verbatim>\<open>null\<close> and
  the empty string are both falsy.
\<close>

definition checked_token :: "string option \<Rightarrow> error + string" where
  "checked_token token =
     (case token of
        None \<Rightarrow> Inl DecryptionFailed
      | Some t \<Rightarrow> if t = [] then Inl DecryptionFailed else Inr t)"

definition getUserToken :: "env \<Rightarrow> world \<Rightarrow> (error + string) \<times> world" where
  "getUserToken env s =
     (let s1 = emit AuthCall s in
      case getAuth env (tick s) of
        None \<Rightarrow> (Inl NotAuthenticated, s1)
      | Some user \<Rightarrow>
          (if \<not> truthy_num (user_githubId user) then (Inl NotLinked, s1)
           else
             (let s2 = emit (DbQuery UserTokenTable) s1 in
              (case find (\<lambda>r. ut_userId r = user_id user) (githubUserTokenTable s2) of
                 None \<Rightarrow> (Inl NotFound, s2)
               | Some tokenData \<Rightarrow>
                   (let s3 = emit DecryptCall s2;
                        token = decrypt env (ut_ciphertext tokenData) (ut_iv tokenData)
                    in (checked_token token, s3))))))"

text \<open>
  The identifier of an inserted row comes from the database; it is taken to be a serial
  key, one more than the largest identifier of the table.
\<close>

definition next_id :: "InstallationToken list \<Rightarrow> nat" where
  "next_id rows = Suc (fold max (map it_id rows) 0)"

text \<open>
  Lines 59 to 84 of \<^verbatim>\<open>getInstallationToken\<close>: what the function does once the stored
  token, if any, is not used. \<open>tokenData\<close> is the row found, \<open>inst\<close> the installation.
\<close>

definition mintInstallationToken ::
  "env \<Rightarrow> world \<Rightarrow> nat \<Rightarrow> InstallationToken option \<Rightarrow> (error + string) \<times> world" where
  "mintInstallationToken env s inst tokenData =
     (let s1 = emit (RemoteCall (CreateInstallationAccessToken inst)) s in
      case createInstallationAccessToken env (tick s) inst of
        Throws \<Rightarrow> (Inl RemoteQueryFailed, s1)
      | Returns installationToken \<Rightarrow>
          (let s2 = emit EncryptCall s1;
               sealed = encrypt env (tick s1) (at_token installationToken);
               ciphertext = fst sealed;
               iv = snd sealed;
               expiresAt = Date_getTime env (at_expires_at installationToken) div 1000
           in
           (case tokenData of
              Some r \<Rightarrow>
                (Inr (at_token installationToken),
                 (emit (DbUpdate InstallationTokenTable) s2)
                   \<lparr>githubInstallationTokenTable :=
                      map (\<lambda>row. if it_id row = it_id r
                                  then row\<lparr>it_ciphertext := ciphertext, it_iv := iv,
                                           it_expiresAt := expiresAt\<rparr>
                                  else row)
                        (githubInstallationTokenTable s2)\<rparr>)
            | None \<Rightarrow>
                (Inr (at_token installationToken),
                 (emit (DbInsert InstallationTokenTable) s2)
                   \<lparr>githubInstallationTokenTable :=
                      githubInstallationTokenTable s2 @
                      [\<lparr>it_id = next_id (githubInstallationTokenTable s2),
                        it_installationId = inst,
                        it_ciphertext = ciphertext, it_iv = iv,
                        it_expiresAt = expiresAt\<rparr>]\<rparr>))))"

text \<open>
  The clock is read only when a row was found (\<^verbatim>\<open>tokenData && ...\<close> evaluates its
  right operand only then).
\<close>

definition getInstallationToken ::
  "env \<Rightarrow> world \<Rightarrow> string \<Rightarrow> string \<Rightarrow> (error + string) \<times> world" where
  "getInstallationToken env s owner repo =
     (let s1 = emit (RemoteCall (GetRepoInstallation owner repo)) s in
      case getRepoInstallation env (tick s) owner repo of
        Throws \<Rightarrow> (Inl RemoteQueryFailed, s1)
      | Returns None \<Rightarrow> (Inl InstallationNotFound, s1)
      | Returns (Some inst) \<Rightarrow>
          (let s2 = emit (DbQuery InstallationTokenTable) s1 in
           (case find (\<lambda>r. it_installationId r = inst) (githubInstallationTokenTable s2) of
              None \<Rightarrow> mintInstallationToken env s2 inst None
            | Some tokenData \<Rightarrow>
                (let s3 = emit ClockRead s2 in
                 if Date_now env (tick s2) div 1000 < it_expiresAt tokenData - 60 then
                   (let s4 = emit DecryptCall s3;
                        token = decrypt env (it_ciphertext tokenData) (it_iv tokenData)
                    in (checked_token token, s4))
                 else mintInstallationToken env s3 inst (Some tokenData)))))"

definition getToken ::
  "env \<Rightarrow> world \<Rightarrow> User \<Rightarrow> string \<Rightarrow> string \<Rightarrow> (error + string) \<times> world" where
  "getToken env s user owner repo =
     (if truthy_num (user_githubId user) then getUserToken env s
      else
        (let s1 = emit (DbQuery SubscriptionTable) s in
         case find (\<lambda>r. sub_owner r = owner \<and> sub_status r = ''active'') (subscriptionTable s1) of
           None \<Rightarrow> (Inl NoActiveSubscription, s1)
         | Some subscription \<Rightarrow>
             (let s2 = emit (DbQuery CollaboratorTable) s1 in
              (case find (\<lambda>r. col_owner r = owner \<and> col_repo r = repo) (collaboratorTable s2) of
                 None \<Rightarrow> (Inl NoPermission, s2)
               | Some permission \<Rightarrow> getInstallationToken env s2 owner repo))))"

section \<open>The tree cache\<close>

text \<open>
  \<^verbatim>\<open>Array.from(new Set(xs))\<close>: the elements of \<open>xs\<close> without repetition, in the order of
  their first occurrence.
\<close>

definition uniq :: "'a list \<Rightarrow> 'a list" where
  "uniq xs = foldl (\<lambda>acc x. if x \<in> set acc then acc else acc @ [x]) [] xs"

text \<open>The condition on \<^verbatim>\<open>owner\<close>, \<^verbatim>\<open>repo\<close> and \<^verbatim>\<open>branch\<close> that every statement repeats.\<close>

definition in_namespace :: "string \<Rightarrow> string \<Rightarrow> string \<Rightarrow> CachedEntry \<Rightarrow> bool" where
  "in_namespace owner repo branch e =
     (ce_owner e = owner \<and> ce_repo e = repo \<and> ce_branch e = branch)"

text \<open>
  The local constants of \<^verbatim>\<open>updateCache\<close>, lines 22 to 48. \<^verbatim>\<open>inArray\<close> is read as list
  membership, for the empty list too.
\<close>

definition parentPaths ::
  "env \<Rightarrow> RemovedFile list \<Rightarrow> FileChange list \<Rightarrow> FileChange list \<Rightarrow> string list" where
  "parentPaths env removedFiles modifiedFiles addedFiles =
     uniq (map (\<lambda>f. dirname env (rf_path f)) removedFiles @
           map (\<lambda>f. dirname env (fc_path f)) modifiedFiles @
           map (\<lambda>f. dirname env (fc_path f)) addedFiles)"

definition cachedParentPaths ::
  "env \<Rightarrow> world \<Rightarrow> string \<Rightarrow> string \<Rightarrow> string \<Rightarrow>
   RemovedFile list \<Rightarrow> FileChange list \<Rightarrow> FileChange list \<Rightarrow> string list" where
  "cachedParentPaths env s owner repo branch removedFiles modifiedFiles addedFiles =
     (let entries =
            filter (\<lambda>e. in_namespace owner repo branch e \<and>
                        ce_parentPath e \<in> set (parentPaths env removedFiles modifiedFiles addedFiles))
              (cachedEntriesTable s)
      in if length (parentPaths env removedFiles modifiedFiles addedFiles) > 0
         then uniq (map ce_parentPath entries) else [])"

definition filesToRemove ::
  "env \<Rightarrow> world \<Rightarrow> string \<Rightarrow> string \<Rightarrow> string \<Rightarrow>
   RemovedFile list \<Rightarrow> FileChange list \<Rightarrow> FileChange list \<Rightarrow> RemovedFile list" where
  "filesToRemove env s owner repo branch removedFiles modifiedFiles addedFiles =
     filter (\<lambda>file. dirname env (rf_path file) \<in>
                     set (cachedParentPaths env s owner repo branch
                            removedFiles modifiedFiles addedFiles))
       removedFiles"

definition filesToFetch ::
  "env \<Rightarrow> world \<Rightarrow> string \<Rightarrow> string \<Rightarrow> string \<Rightarrow>
   RemovedFile list \<Rightarrow> FileChange list \<Rightarrow> FileChange list \<Rightarrow> FileChange list" where
  "filesToFetch env s owner repo branch removedFiles modifiedFiles addedFiles =
     filter (\<lambda>file. dirname env (fc_path file) \<in>
                     set (cachedParentPaths env s owner repo branch
                            removedFiles modifiedFiles addedFiles))
       modifiedFiles @
     filter (\<lambda>file. dirname env (fc_path file) \<in>
                     set (cachedParentPaths env s owner repo branch
                            removedFiles modifiedFiles addedFiles))
       addedFiles"

text \<open>The batched delete of lines 51 to 60.\<close>

definition delete_removed ::
  "string \<Rightarrow> string \<Rightarrow> string \<Rightarrow> RemovedFile list \<Rightarrow> CachedEntry list \<Rightarrow> CachedEntry list" where
  "delete_removed owner repo branch files rows =
     filter (\<lambda>e. \<not> (in_namespace owner repo branch e \<and> ce_path e \<in> set (map rf_path files))) rows"

text \<open>The variables \<^verbatim>\<open>exp0\<close>, \<^verbatim>\<open>exp1\<close>, ... of the batched query, in this order.\<close>

definition expressions :: "string \<Rightarrow> FileChange list \<Rightarrow> string list" where
  "expressions branch files = map (\<lambda>file. branch @ '':'' @ fc_path file) files"

text \<open>
  \<^verbatim>\<open>response.repository[`file${index}`]\<close>: an alias the response does not have reads
  as \<^verbatim>\<open>undefined\<close>.
\<close>

definition response_file :: "FileData option list \<Rightarrow> nat \<Rightarrow> FileData option" where
  "response_file response index =
     (if index < length response then response ! index else None)"

record CacheUpdate =
  up_path :: string
  up_parentPath :: string
  up_content :: "string js"
  up_sha :: "string js"
  up_lastUpdated :: int

text \<open>
  \<^verbatim>\<open>filesToFetch.map((file, index) => ...)\<close>, lines 93 to 102. Reading \<^verbatim>\<open>fileData.text\<close>
  of a missing object throws, before the clock is read for that file.
\<close>

fun build_updates ::
  "env \<Rightarrow> FileData option list \<Rightarrow> nat \<Rightarrow> FileChange list \<Rightarrow> world \<Rightarrow>
   (error + CacheUpdate list) \<times> world" where
  "build_updates env response index [] s = (Inr [], s)"
| "build_updates env response index (file # files) s =
     (case response_file response index of
        None \<Rightarrow> (Inl TypeError, s)
      | Some fileData \<Rightarrow>
          (let s1 = emit ClockRead s;
               update = \<lparr>up_path = fc_path file,
                         up_parentPath = dirname env (fc_path file),
                         up_content = fd_text fileData,
                         up_sha = fd_oid fileData,
                         up_lastUpdated = Date_now env (tick s)\<rparr>
           in (case build_updates env response (Suc index) files s1 of
                 (Inl e, s2) \<Rightarrow> (Inl e, s2)
               | (Inr updates, s2) \<Rightarrow> (Inr (update # updates), s2))))"

text \<open>
  The loop of lines 105 to 140. The update statement of lines 110 to 123 rewrites, in
  every row it selects, the columns it sets: \<^verbatim>\<open>lastUpdated\<close> always, \<^verbatim>\<open>content\<close> and
  \<^verbatim>\<open>sha\<close> unless the value handed over is \<^verbatim>\<open>undefined\<close>. The insert statement of lines
  126 to 138 adds one row.
\<close>

definition update_row ::
  "string \<Rightarrow> string \<Rightarrow> string \<Rightarrow> CacheUpdate \<Rightarrow> CachedEntry \<Rightarrow> CachedEntry" where
  "update_row owner repo branch update e =
     (if in_namespace owner repo branch e \<and> ce_path e = up_path update
      then e\<lparr>ce_content := written (up_content update) (ce_content e),
             ce_sha := written (up_sha update) (ce_sha e),
             ce_lastUpdated := up_lastUpdated update\<rparr>
      else e)"

definition new_row :: "env \<Rightarrow> string \<Rightarrow> string \<Rightarrow> string \<Rightarrow> CacheUpdate \<Rightarrow> CachedEntry" where
  "new_row env owner repo branch update =
     \<lparr>ce_owner = owner, ce_repo = repo, ce_branch = branch,
      ce_path = up_path update,
      ce_parentPath = up_parentPath update,
      ce_name = basename env (up_path update),
      ce_type = ''blob'',
      ce_content = column_of (up_content update),
      ce_sha = column_of (up_sha update),
      ce_lastUpdated = up_lastUpdated update\<rparr>"

definition apply_update ::
  "env \<Rightarrow> string \<Rightarrow> string \<Rightarrow> string \<Rightarrow> FileChange list \<Rightarrow> CacheUpdate \<Rightarrow> world \<Rightarrow> world" where
  "apply_update env owner repo branch modifiedFiles update s =
     (let isModified = list_ex (\<lambda>f. fc_path f = up_path update) modifiedFiles in
      if isModified then
        (emit (DbUpdate CachedEntriesTable) s)
          \<lparr>cachedEntriesTable :=
             map (update_row owner repo branch update) (cachedEntriesTable s)\<rparr>
      else
        (emit (DbInsert CachedEntriesTable) s)
          \<lparr>cachedEntriesTable :=
             cachedEntriesTable s @ [new_row env owner repo branch update]\<rparr>)"

definition updateCache ::
  "env \<Rightarrow> world \<Rightarrow> string \<Rightarrow> string \<Rightarrow> string \<Rightarrow>
   RemovedFile list \<Rightarrow> FileChange list \<Rightarrow> FileChange list \<Rightarrow> string \<Rightarrow>
   (error + unit) \<times> world" where
  "updateCache env s owner repo branch removedFiles modifiedFiles addedFiles token =
     (let s1 = emit (DbQuery CachedEntriesTable) s;
          toRemove = filesToRemove env s1 owner repo branch removedFiles modifiedFiles addedFiles;
          toFetch = filesToFetch env s1 owner repo branch removedFiles modifiedFiles addedFiles;
          s2 = (if length toRemove > 0
                then (emit (DbDelete CachedEntriesTable) s1)
                       \<lparr>cachedEntriesTable :=
                          delete_removed owner repo branch toRemove (cachedEntriesTable s1)\<rparr>
                else s1)
      in if length toFetch = 0 then (Inr (), s2)
         else
           (let s3 = emit (RemoteCall (GraphqlBlobs token owner repo (expressions branch toFetch))) s2
            in case graphql_blobs env (tick s2) token owner repo (expressions branch toFetch) of
                 Throws \<Rightarrow> (Inl RemoteQueryFailed, s3)
               | Returns response \<Rightarrow>
                   (case build_updates env response 0 toFetch s3 of
                      (Inl e, s4) \<Rightarrow> (Inl e, s4)
                    | (Inr updates, s4) \<Rightarrow>
                        (Inr (),
                         fold (apply_update env owner repo branch modifiedFiles) updates s4))))"

text \<open>
  The rows \<^verbatim>\<open>getCachedCollection\<close> inserts, lines 195 to 206. For an entry of type
  \<^verbatim>\<open>blob\<close> the source reads \<^verbatim>\<open>entry.object.text\<close>, which throws when the object is
  missing.
\<close>

fun tree_rows ::
  "env \<Rightarrow> string \<Rightarrow> string \<Rightarrow> string \<Rightarrow> string \<Rightarrow> TreeEntry list \<Rightarrow> world \<Rightarrow>
   (error + CachedEntry list) \<times> world" where
  "tree_rows env owner repo branch path [] s = (Inr [], s)"
| "tree_rows env owner repo branch path (entry # entries) s =
     (case (if te_type entry = ''blob''
            then map_option (\<lambda>obj. (fd_text obj, fd_oid obj)) (te_object entry)
            else Some (Null, Null)) of
        None \<Rightarrow> (Inl TypeError, s)
      | Some (content, sha) \<Rightarrow>
          (let s1 = emit ClockRead s;
               row = \<lparr>ce_owner = owner, ce_repo = repo, ce_branch = branch,
                      ce_path = te_path entry,
                      ce_parentPath = path,
                      ce_name = te_name entry,
                      ce_type = te_type entry,
                      ce_content = column_of content,
                      ce_sha = column_of sha,
                      ce_lastUpdated = Date_now env (tick s)\<rparr>
           in (case tree_rows env owner repo branch path entries s1 of
                 (Inl e, s2) \<Rightarrow> (Inl e, s2)
               | (Inr rows, s2) \<Rightarrow> (Inr (row # rows), s2))))"

definition getCachedCollection ::
  "env \<Rightarrow> world \<Rightarrow> string \<Rightarrow> string \<Rightarrow> string \<Rightarrow> string \<Rightarrow> string \<Rightarrow>
   (error + CachedEntry list) \<times> world" where
  "getCachedCollection env s owner repo branch path token =
     (let s1 = emit (DbQuery CachedEntriesTable) s;
          entries = filter (\<lambda>e. in_namespace owner repo branch e \<and> ce_parentPath e = path)
                      (cachedEntriesTable s1)
      in if length entries = 0 then
           (let s2 = emit (RemoteCall (GraphqlTree token owner repo (branch @ '':'' @ path))) s1
            in case graphql_tree env (tick s1) token owner repo (branch @ '':'' @ path) of
                 Throws \<Rightarrow> (Inl RemoteQueryFailed, s2)
               | Returns found \<Rightarrow>
                   (let githubEntries = (case found of None \<Rightarrow> [] | Some es \<Rightarrow> es) in
                    if length githubEntries > 0 then
                      (case tree_rows env owner repo branch path githubEntries s2 of
                         (Inl e, s3) \<Rightarrow> (Inl e, s3)
                       | (Inr rows, s3) \<Rightarrow>
                           (Inr rows,
                            (emit (DbInsert CachedEntriesTable) s3)
                              \<lparr>cachedEntriesTable := cachedEntriesTable s3 @ rows\<rparr>))
                    else (Inr entries, s2)))
         else (Inr entries, s1))"

section \<open>Predicates of the claims\<close>

definition has_active_subscription :: "world \<Rightarrow> string \<Rightarrow> bool" where
  "has_active_subscription s owner =
     list_ex (\<lambda>r. sub_owner r = owner \<and> sub_status r = ''active'') (subscriptionTable s)"

definition has_collaborator_grant :: "world \<Rightarrow> string \<Rightarrow> string \<Rightarrow> bool" where
  "has_collaborator_grant s owner repo =
     list_ex (\<lambda>r. col_owner r = owner \<and> col_repo r = repo) (collaboratorTable s)"

text \<open>
  The clock reading of line 52, in seconds: it is the third effect of
  \<open>getInstallationToken\<close>, after the installation lookup and the query of the token row.
\<close>

definition now_at_check :: "env \<Rightarrow> world \<Rightarrow> int" where
  "now_at_check env s = Date_now env (tick s + 2) div 1000"

text \<open>The events a call appended to the trace, when \<open>s\<close> is the state before and \<open>s'\<close> after.\<close>

definition events_since :: "world \<Rightarrow> world \<Rightarrow> event list" where
  "events_since s s' = drop (length (trace s)) (trace s')"

fun is_mint :: "event \<Rightarrow> bool" where
  "is_mint (RemoteCall (CreateInstallationAccessToken inst)) = True"
| "is_mint e = False"

text \<open>
  The row the update of lines 68 to 74 writes over \<open>row\<close>: \<open>tok\<close> is the minted token and
  \<open>t\<close> the logical time of the encryption.
\<close>

definition renewed_row ::
  "env \<Rightarrow> nat \<Rightarrow> AccessToken \<Rightarrow> InstallationToken \<Rightarrow> InstallationToken" where
  "renewed_row env t tok row =
     row\<lparr>it_ciphertext := fst (encrypt env t (at_token tok)),
         it_iv := snd (encrypt env t (at_token tok)),
         it_expiresAt := Date_getTime env (at_expires_at tok) div 1000\<rparr>"

text \<open>
  A directory is cached when some row of the namespace has it as its parent path.
\<close>

definition directory_cached :: "world \<Rightarrow> string \<Rightarrow> string \<Rightarrow> string \<Rightarrow> string \<Rightarrow> bool" where
  "directory_cached s owner repo branch dir =
     list_ex (\<lambda>e. in_namespace owner repo branch e \<and> ce_parentPath e = dir)
       (cachedEntriesTable s)"

fun is_remote :: "event \<Rightarrow> bool" where
  "is_remote (RemoteCall c) = True"
| "is_remote e = False"

fun is_mutation :: "event \<Rightarrow> bool" where
  "is_mutation (DbInsert t) = True"
| "is_mutation (DbUpdate t) = True"
| "is_mutation (DbDelete t) = True"
| "is_mutation e = False"

text \<open>
  The state \<open>updateCache\<close> has reached after line 60: the cache table was queried and, when
  some removed path lies in a cached directory, the batched delete was issued.
\<close>

definition after_delete ::
  "env \<Rightarrow> world \<Rightarrow> string \<Rightarrow> string \<Rightarrow> string \<Rightarrow>
   RemovedFile list \<Rightarrow> FileChange list \<Rightarrow> FileChange list \<Rightarrow> world" where
  "after_delete env s owner repo branch removedFiles modifiedFiles addedFiles =
     (let toRemove = filesToRemove env s owner repo branch removedFiles modifiedFiles addedFiles
      in s\<lparr>cachedEntriesTable := delete_removed owner repo branch toRemove (cachedEntriesTable s),
           trace := trace s @ DbQuery CachedEntriesTable #
                      (if toRemove = [] then [] else [DbDelete CachedEntriesTable])\<rparr>)"

text \<open>The statement the loop issues for an update: line 106 decides between the two.\<close>

definition update_event :: "FileChange list \<Rightarrow> CacheUpdate \<Rightarrow> event" where
  "update_event modifiedFiles update =
     (if list_ex (\<lambda>f. fc_path f = up_path update) modifiedFiles
      then DbUpdate CachedEntriesTable else DbInsert CachedEntriesTable)"

text \<open>
  Two rows agree on the columns that identify an entry: the namespace, the path, the
  parent path, the name and the type.
\<close>

definition same_identity :: "CachedEntry \<Rightarrow> CachedEntry \<Rightarrow> bool" where
  "same_identity e e' =
     (ce_owner e' = ce_owner e \<and> ce_repo e' = ce_repo e \<and> ce_branch e' = ce_branch e \<and>
      ce_path e' = ce_path e \<and> ce_parentPath e' = ce_parentPath e \<and>
      ce_name e' = ce_name e \<and> ce_type e' = ce_type e)"

section \<open>A concrete environment and database\<close>

text \<open>
  Node's \<^verbatim>\<open>path.dirname\<close> and \<^verbatim>\<open>path.basename\<close> for POSIX paths. They belong to the
  runtime, not to the repository: the theorems below hold for every \<open>dirname\<close> and
  \<open>basename\<close>, and these two are the instance used in the concrete examples.
\<close>

definition posix_dirname :: "string \<Rightarrow> string" where
  "posix_dirname p =
     (if p = [] then ''.''
      else
        (let hasRoot = (hd p = CHR ''/'');
             scanned = dropWhile (\<lambda>c. c \<noteq> CHR ''/'')
                         (dropWhile (\<lambda>c. c = CHR ''/'') (rev (tl p)))
         in if scanned = [] then (if hasRoot then ''/'' else ''.'')
            else if hasRoot \<and> length scanned = 1 then ''//''
            else take (length scanned) p))"

definition posix_basename :: "string \<Rightarrow> string" where
  "posix_basename p =
     rev (takeWhile (\<lambda>c. c \<noteq> CHR ''/'') (dropWhile (\<lambda>c. c = CHR ''/'') (rev p)))"

text \<open>
  An environment in which every service answers, a database with one active subscription,
  one collaborator grant, one installation token that is still valid, one user token and
  the cached directory \<^verbatim>\<open>a\<close> with two files, and two users.
\<close>

definition env0 :: env where
  "env0 =
     \<lparr>dirname = posix_dirname,
      basename = posix_basename,
      Date_now = (\<lambda>t. 1700000000000),
      Date_getTime = (\<lambda>text. 1700003600000),
      decrypt = (\<lambda>c iv. if c = ''c7'' then Some ''ghs_old''
                         else if c = ''cu1'' then Some ''gho_user'' else None),
      encrypt = (\<lambda>t plain. (''enc:'' @ plain, ''iv'')),
      getAuth = (\<lambda>t. Some \<lparr>user_id = ''u1'', user_githubId = Some 42\<rparr>),
      getRepoInstallation =
        (\<lambda>t owner repo. if owner = ''acme'' \<and> repo = ''site'' then Returns (Some 7) else Throws),
      createInstallationAccessToken =
        (\<lambda>t inst. Returns \<lparr>at_token = ''ghs_new'', at_expires_at = ''2023-11-14T23:13:20Z''\<rparr>),
      graphql_blobs =
        (\<lambda>t token owner repo exprs.
           Returns (map (\<lambda>x. Some \<lparr>fd_text = Value (''text of '' @ x), fd_oid = Value ''0a1b''\<rparr>) exprs)),
      graphql_tree =
        (\<lambda>t token owner repo expr.
           Returns (Some [\<lparr>te_name = ''readme.md'', te_path = ''docs/readme.md'',
                            te_type = ''blob'',
                            te_object = Some \<lparr>fd_text = Value ''hello'', fd_oid = Value ''77aa''\<rparr>\<rparr>]))\<rparr>"

definition entry_b :: CachedEntry where
  "entry_b =
     \<lparr>ce_owner = ''acme'', ce_repo = ''site'', ce_branch = ''main'',
      ce_path = ''a/b.txt'', ce_parentPath = ''a'', ce_name = ''b.txt'', ce_type = ''blob'',
      ce_content = Some ''old b'', ce_sha = Some ''b0'', ce_lastUpdated = 1690000000000\<rparr>"

definition entry_c :: CachedEntry where
  "entry_c =
     \<lparr>ce_owner = ''acme'', ce_repo = ''site'', ce_branch = ''main'',
      ce_path = ''a/c.txt'', ce_parentPath = ''a'', ce_name = ''c.txt'', ce_type = ''blob'',
      ce_content = Some ''old c'', ce_sha = Some ''c0'', ce_lastUpdated = 1690000000000\<rparr>"

definition world0 :: world where
  "world0 =
     \<lparr>subscriptionTable =
        [\<lparr>sub_owner = ''acme'', sub_status = ''active''\<rparr>,
         \<lparr>sub_owner = ''globex'', sub_status = ''canceled''\<rparr>],
      collaboratorTable = [\<lparr>col_owner = ''acme'', col_repo = ''site''\<rparr>],
      githubInstallationTokenTable =
        [\<lparr>it_id = 1, it_installationId = 7, it_ciphertext = ''c7'', it_iv = ''iv7'',
          it_expiresAt = 1700000120\<rparr>],
      githubUserTokenTable = [\<lparr>ut_userId = ''u1'', ut_ciphertext = ''cu1'', ut_iv = ''ivu1''\<rparr>],
      cachedEntriesTable = [entry_b, entry_c],
      trace = []\<rparr>"

definition user_linked :: User where
  "user_linked = \<lparr>user_id = ''u1'', user_githubId = Some 42\<rparr>"

definition user_unlinked :: User where
  "user_unlinked = \<lparr>user_id = ''u2'', user_githubId = None\<rparr>"

text \<open>
  The environment \<open>env0\<close> with a hosting API that answers every expression with an object
  that is no blob: the object has neither \<^verbatim>\<open>text\<close> nor \<^verbatim>\<open>oid\<close>.
\<close>

definition env_no_blob :: env where
  "env_no_blob =
     env0\<lparr>graphql_blobs :=
            (\<lambda>t token owner repo exprs.
               Returns (map (\<lambda>x. Some \<lparr>fd_text = Undefined, fd_oid = Undefined\<rparr>) exprs))\<rparr>"

text \<open>The database \<open>world0\<close> with another expiry of its one installation token.\<close>

definition world_with_expiry :: "int \<Rightarrow> world" where
  "world_with_expiry e =
     world0\<lparr>githubInstallationTokenTable :=
              [\<lparr>it_id = 1, it_installationId = 7, it_ciphertext = ''c7'', it_iv = ''iv7'',
                it_expiresAt = e\<rparr>]\<rparr>"

section \<open>The credential broker: dispatch and user token\<close>

lemma tick_emit: "tick (emit e s) = Suc (tick s)"
  by (simp add: emit_def tick_def)

lemma trace_world0: "trace world0 = []"
  by (simp add: world0_def)

lemma find_None_list_ex: "(find P xs = None) = (\<not> list_ex P xs)"
  by (auto simp add: find_None_iff list_ex_iff)

lemma getUserToken_frame:
  "\<exists>es. snd (getUserToken env s) = s\<lparr>trace := trace s @ es\<rparr> \<and>
        set es \<subseteq> {AuthCall, DbQuery UserTokenTable, DecryptCall}"
proof (cases "getAuth env (tick s)")
  case None
  then have "snd (getUserToken env s) = s\<lparr>trace := trace s @ [AuthCall]\<rparr>"
    by (simp add: getUserToken_def emit_def)
  then show ?thesis by (intro exI[of _ "[AuthCall]"]) simp
next
  case (Some user)
  show ?thesis
  proof (cases "truthy_num (user_githubId user)")
    case False
    with Some have "snd (getUserToken env s) = s\<lparr>trace := trace s @ [AuthCall]\<rparr>"
      by (simp add: getUserToken_def emit_def)
    then show ?thesis by (intro exI[of _ "[AuthCall]"]) simp
  next
    case True
    show ?thesis
    proof (cases "find (\<lambda>r. ut_userId r = user_id user) (githubUserTokenTable s)")
      case None
      with Some True
      have "snd (getUserToken env s) = s\<lparr>trace := trace s @ [AuthCall, DbQuery UserTokenTable]\<rparr>"
        by (simp add: getUserToken_def emit_def)
      then show ?thesis by (intro exI[of _ "[AuthCall, DbQuery UserTokenTable]"]) simp
    next
      case (Some tokenData)
      with \<open>getAuth env (tick s) = Some user\<close> True
      have "snd (getUserToken env s) =
              s\<lparr>trace := trace s @ [AuthCall, DbQuery UserTokenTable, DecryptCall]\<rparr>"
        by (simp add: getUserToken_def emit_def)
      then show ?thesis
        by (intro exI[of _ "[AuthCall, DbQuery UserTokenTable, DecryptCall]"]) simp
    qed
  qed
qed

text \<open>
  Claim C1. For a caller without a linked external identity, \<open>getToken\<close> fails with
  \<open>NoActiveSubscription\<close> when the owner has no active subscription, having done nothing
  but the subscription query (no collaborator query, no remote call, no change of any
  table); it fails with \<open>NoPermission\<close> when the subscription exists and the collaborator
  grant does not, having done nothing but the two queries (no token is minted); and when
  both rows exist it is the installation token of \<open>(owner, repo)\<close>, requested after the two
  queries. For a caller with a linked external identity it is the outcome of
  \<open>getUserToken\<close>, and neither table is queried.
\<close>

theorem getToken_checks_in_order:
  "(\<not> truthy_num (user_githubId user) \<and> \<not> has_active_subscription s owner \<longrightarrow>
      getToken env s user owner repo =
        (Inl NoActiveSubscription, s\<lparr>trace := trace s @ [DbQuery SubscriptionTable]\<rparr>)) \<and>
   (\<not> truthy_num (user_githubId user) \<and> has_active_subscription s owner \<and>
    \<not> has_collaborator_grant s owner repo \<longrightarrow>
      getToken env s user owner repo =
        (Inl NoPermission,
         s\<lparr>trace := trace s @ [DbQuery SubscriptionTable, DbQuery CollaboratorTable]\<rparr>)) \<and>
   (\<not> truthy_num (user_githubId user) \<and> has_active_subscription s owner \<and>
    has_collaborator_grant s owner repo \<longrightarrow>
      getToken env s user owner repo =
        getInstallationToken env
          (s\<lparr>trace := trace s @ [DbQuery SubscriptionTable, DbQuery CollaboratorTable]\<rparr>)
          owner repo) \<and>
   (truthy_num (user_githubId user) \<longrightarrow>
      getToken env s user owner repo = getUserToken env s \<and>
      (\<exists>es. snd (getToken env s user owner repo) = s\<lparr>trace := trace s @ es\<rparr> \<and>
            DbQuery SubscriptionTable \<notin> set es \<and> DbQuery CollaboratorTable \<notin> set es))"
proof (intro conjI impI)
  assume a: "\<not> truthy_num (user_githubId user) \<and> \<not> has_active_subscription s owner"
  then show "getToken env s user owner repo =
        (Inl NoActiveSubscription, s\<lparr>trace := trace s @ [DbQuery SubscriptionTable]\<rparr>)"
    by (simp add: getToken_def has_active_subscription_def find_None_list_ex[symmetric] emit_def)
next
  assume a: "\<not> truthy_num (user_githubId user) \<and> has_active_subscription s owner \<and>
    \<not> has_collaborator_grant s owner repo"
  then obtain sub where
    "find (\<lambda>r. sub_owner r = owner \<and> sub_status r = ''active'') (subscriptionTable s) = Some sub"
    using find_None_list_ex[of "\<lambda>r. sub_owner r = owner \<and> sub_status r = ''active''" "subscriptionTable s"]
    by (auto simp: has_active_subscription_def)
  with a show "getToken env s user owner repo =
        (Inl NoPermission,
         s\<lparr>trace := trace s @ [DbQuery SubscriptionTable, DbQuery CollaboratorTable]\<rparr>)"
    by (simp add: getToken_def has_collaborator_grant_def find_None_list_ex[symmetric] emit_def)
next
  assume a: "\<not> truthy_num (user_githubId user) \<and> has_active_subscription s owner \<and>
    has_collaborator_grant s owner repo"
  then obtain sub where
    "find (\<lambda>r. sub_owner r = owner \<and> sub_status r = ''active'') (subscriptionTable s) = Some sub"
    using find_None_list_ex[of "\<lambda>r. sub_owner r = owner \<and> sub_status r = ''active''" "subscriptionTable s"]
    by (auto simp: has_active_subscription_def)
  moreover from a obtain perm where
    "find (\<lambda>r. col_owner r = owner \<and> col_repo r = repo) (collaboratorTable s) = Some perm"
    using find_None_list_ex[of "\<lambda>r. col_owner r = owner \<and> col_repo r = repo" "collaboratorTable s"]
    by (auto simp: has_collaborator_grant_def)
  ultimately show "getToken env s user owner repo =
        getInstallationToken env
          (s\<lparr>trace := trace s @ [DbQuery SubscriptionTable, DbQuery CollaboratorTable]\<rparr>)
          owner repo"
    using a by (simp add: getToken_def emit_def)
next
  assume t: "truthy_num (user_githubId user)"
  then show "getToken env s user owner repo = getUserToken env s"
    by (simp add: getToken_def)
next
  assume t: "truthy_num (user_githubId user)"
  then have eq: "getToken env s user owner repo = getUserToken env s"
    by (simp add: getToken_def)
  from getUserToken_frame[of env s] obtain es where
    "snd (getUserToken env s) = s\<lparr>trace := trace s @ es\<rparr>"
    "set es \<subseteq> {AuthCall, DbQuery UserTokenTable, DecryptCall}" by blast
  then show "\<exists>es. snd (getToken env s user owner repo) = s\<lparr>trace := trace s @ es\<rparr> \<and>
            DbQuery SubscriptionTable \<notin> set es \<and> DbQuery CollaboratorTable \<notin> set es"
    unfolding eq by (intro exI[of _ es]) auto
qed


theorem getToken_checks_in_order_witness:
  "getToken env0 world0 user_unlinked ''globex'' ''site'' =
     (Inl NoActiveSubscription, world0\<lparr>trace := [DbQuery SubscriptionTable]\<rparr>) \<and>
   getToken env0 world0 user_unlinked ''acme'' ''other'' =
     (Inl NoPermission, world0\<lparr>trace := [DbQuery SubscriptionTable, DbQuery CollaboratorTable]\<rparr>) \<and>
   getToken env0 world0 user_unlinked ''acme'' ''site'' =
     getInstallationToken env0
       (world0\<lparr>trace := [DbQuery SubscriptionTable, DbQuery CollaboratorTable]\<rparr>) ''acme'' ''site'' \<and>
   getToken env0 world0 user_linked ''globex'' ''site'' = getUserToken env0 world0"
proof -
  have t0: "trace world0 = []"
    by (simp add: world0_def)
  have u: "\<not> truthy_num (user_githubId user_unlinked)" "truthy_num (user_githubId user_linked)"
    by (simp_all add: truthy_num_def user_unlinked_def user_linked_def)
  have sub: "\<not> has_active_subscription world0 ''globex''" "has_active_subscription world0 ''acme''"
    by (simp_all add: has_active_subscription_def world0_def)
  have col: "\<not> has_collaborator_grant world0 ''acme'' ''other''"
    "has_collaborator_grant world0 ''acme'' ''site''"
    by (simp_all add: has_collaborator_grant_def world0_def)
  show ?thesis
    using getToken_checks_in_order [of user_unlinked world0 "''globex''" env0 "''site''"]
      getToken_checks_in_order [of user_unlinked world0 "''acme''" env0 "''other''"]
      getToken_checks_in_order [of user_unlinked world0 "''acme''" env0 "''site''"]
      getToken_checks_in_order [of user_linked world0 "''globex''" env0 "''site''"]
    by (simp add: t0 u sub col)
qed


lemma checked_token_truthy:
  "\<not> truthy_str token \<Longrightarrow> checked_token token = Inl DecryptionFailed"
  by (simp add: checked_token_def truthy_str_def split: option.splits)

lemma getUserToken_Inr:
  assumes "fst (getUserToken env s) = Inr t"
  shows "\<exists>u row. getAuth env (tick s) = Some u \<and> row \<in> set (githubUserTokenTable s) \<and>
           ut_userId row = user_id u \<and> decrypt env (ut_ciphertext row) (ut_iv row) = Some t"
proof -
  from assms obtain u where u: "getAuth env (tick s) = Some u" "truthy_num (user_githubId u)"
    by (auto simp: getUserToken_def Let_def split: option.splits if_splits)
  with assms obtain row where
    row: "find (\<lambda>r. ut_userId r = user_id u) (githubUserTokenTable s) = Some row"
    by (auto simp: getUserToken_def Let_def emit_def split: option.splits if_splits)
  with assms u have "checked_token (decrypt env (ut_ciphertext row) (ut_iv row)) = Inr t"
    by (simp add: getUserToken_def Let_def emit_def)
  then have d: "decrypt env (ut_ciphertext row) (ut_iv row) = Some t"
    by (auto simp: checked_token_def split: option.splits if_splits)
  from row have "row \<in> set (githubUserTokenTable s)" "ut_userId row = user_id u"
    by (auto simp: find_Some_iff)
  with u d show ?thesis by blast
qed

text \<open>
  Claim C10. For a user with a linked external identity the outcome of \<open>getToken\<close> does
  not depend on \<open>owner\<close> and \<open>repo\<close>: from the same state, two calls with any two pairs
  give the same result and the same final state, which are those of \<open>getUserToken\<close>. The
  call does nothing but look the session up, query the user token table and decrypt: the
  subscription, collaborator and installation token tables are not read, nothing is
  written, and no remote call is made. A token it returns is the decryption of a user
  token row of the session user.
\<close>

theorem getToken_linked_independent:
  assumes "truthy_num (user_githubId user)"
  shows "getToken env s user owner repo = getToken env s user owner' repo' \<and>
         getToken env s user owner repo = getUserToken env s \<and>
         (\<exists>es. snd (getToken env s user owner repo) = s\<lparr>trace := trace s @ es\<rparr> \<and>
               set es \<subseteq> {AuthCall, DbQuery UserTokenTable, DecryptCall}) \<and>
         (\<forall>t. fst (getToken env s user owner repo) = Inr t \<longrightarrow>
               (\<exists>u row. getAuth env (tick s) = Some u \<and> row \<in> set (githubUserTokenTable s) \<and>
                  ut_userId row = user_id u \<and>
                  decrypt env (ut_ciphertext row) (ut_iv row) = Some t))"
proof -
  from assms have eq: "getToken env s user owner repo = getUserToken env s"
    and eq': "getToken env s user owner' repo' = getUserToken env s"
    by (simp_all add: getToken_def)
  show ?thesis
    unfolding eq eq' using getUserToken_frame[of env s] getUserToken_Inr[of env s]
    by blast
qed

theorem getToken_linked_independent_witness:
  "getToken env0 world0 user_linked ''acme'' ''site'' =
     getToken env0 world0 user_linked ''globex'' ''blog'' \<and>
   fst (getToken env0 world0 user_linked ''acme'' ''site'') = Inr ''gho_user''"
proof -
  have u: "truthy_num (user_githubId user_linked)"
    by (simp add: truthy_num_def user_linked_def)
  have "fst (getUserToken env0 world0) = Inr ''gho_user''"
    by (simp add: getUserToken_def env0_def world0_def tick_def emit_def truthy_num_def
        checked_token_def)
  note g = this
  from getToken_linked_independent [OF u, of env0 world0 "''acme''" "''site''" "''globex''" "''blog''"]
  have a: "getToken env0 world0 user_linked ''acme'' ''site'' =
             getToken env0 world0 user_linked ''globex'' ''blog''"
    and b: "getToken env0 world0 user_linked ''acme'' ''site'' = getUserToken env0 world0"
    by blast+
  from b g have c: "fst (getToken env0 world0 user_linked ''acme'' ''site'') = Inr ''gho_user''"
    by simp
  show ?thesis by (rule conjI [OF a c])
qed

text \<open>
  Claim C9. When the row found for the installation is within its validity window and the
  decryption of its ciphertext yields nothing (\<^verbatim>\<open>null\<close> or the empty string),
  \<open>getInstallationToken\<close> fails with \<open>DecryptionFailed\<close>; up to that point it has looked
  the installation up, queried the row, read the clock and called the decryption: no token
  is minted and no table is changed.
\<close>

theorem decryption_failure_is_fatal:
  assumes "getRepoInstallation env (tick s) owner repo = Returns (Some inst)"
    and "find (\<lambda>r. it_installationId r = inst) (githubInstallationTokenTable s) = Some r"
    and "now_at_check env s < it_expiresAt r - 60"
    and "\<not> truthy_str (decrypt env (it_ciphertext r) (it_iv r))"
  shows "getInstallationToken env s owner repo =
           (Inl DecryptionFailed,
            s\<lparr>trace := trace s @ [RemoteCall (GetRepoInstallation owner repo),
                                   DbQuery InstallationTokenTable, ClockRead, DecryptCall]\<rparr>)"
  using assms
  by (simp add: getInstallationToken_def now_at_check_def emit_def tick_def
      checked_token_truthy)


theorem decryption_failure_is_fatal_witness:
  "getInstallationToken (env0\<lparr>decrypt := (\<lambda>c iv. None)\<rparr>) world0 ''acme'' ''site'' =
     (Inl DecryptionFailed,
      world0\<lparr>trace := [RemoteCall (GetRepoInstallation ''acme'' ''site''),
                        DbQuery InstallationTokenTable, ClockRead, DecryptCall]\<rparr>)"
proof -
  let ?env = "env0\<lparr>decrypt := (\<lambda>c iv. None)\<rparr>"
  let ?r = "\<lparr>it_id = 1, it_installationId = 7, it_ciphertext = ''c7'', it_iv = ''iv7'',
             it_expiresAt = 1700000120\<rparr>"
  have 1: "getRepoInstallation ?env (tick world0) ''acme'' ''site'' = Returns (Some 7)"
    by (simp add: env0_def)
  have 2: "find (\<lambda>r. it_installationId r = 7) (githubInstallationTokenTable world0) = Some ?r"
    by (simp add: world0_def)
  have 3: "now_at_check ?env world0 < it_expiresAt ?r - 60"
    by (simp add: now_at_check_def env0_def)
  have 4: "\<not> truthy_str (decrypt ?env (it_ciphertext ?r) (it_iv ?r))"
    by (simp add: truthy_str_def)
  have t0: "trace world0 = []"
    by (simp add: world0_def)
  show ?thesis
    using decryption_failure_is_fatal [OF 1 2 3 4] by (simp add: t0)
qed

section \<open>The credential broker: installation token\<close>

lemma mintInstallationToken_Throws:
  "createInstallationAccessToken env (tick s) inst = Throws \<Longrightarrow>
   mintInstallationToken env s inst tokenData =
     (Inl RemoteQueryFailed,
      s\<lparr>trace := trace s @ [RemoteCall (CreateInstallationAccessToken inst)]\<rparr>)"
  by (simp add: mintInstallationToken_def emit_def)

lemma mintInstallationToken_update:
  "createInstallationAccessToken env (tick s) inst = Returns tok \<Longrightarrow> t = Suc (tick s) \<Longrightarrow>
   mintInstallationToken env s inst (Some r) =
     (Inr (at_token tok),
      s\<lparr>githubInstallationTokenTable :=
          map (\<lambda>row. if it_id row = it_id r then renewed_row env t tok row else row)
            (githubInstallationTokenTable s),
        trace := trace s @ [RemoteCall (CreateInstallationAccessToken inst), EncryptCall,
                            DbUpdate InstallationTokenTable]\<rparr>)"
  by (simp add: mintInstallationToken_def emit_def tick_def renewed_row_def Let_def)

lemma mintInstallationToken_insert:
  "createInstallationAccessToken env (tick s) inst = Returns tok \<Longrightarrow>
   mintInstallationToken env s inst None =
     (Inr (at_token tok),
      s\<lparr>githubInstallationTokenTable :=
          githubInstallationTokenTable s @
          [\<lparr>it_id = next_id (githubInstallationTokenTable s), it_installationId = inst,
            it_ciphertext = fst (encrypt env (tick s + 1) (at_token tok)),
            it_iv = snd (encrypt env (tick s + 1) (at_token tok)),
            it_expiresAt = Date_getTime env (at_expires_at tok) div 1000\<rparr>],
        trace := trace s @ [RemoteCall (CreateInstallationAccessToken inst), EncryptCall,
                            DbInsert InstallationTokenTable]\<rparr>)"
  by (simp add: mintInstallationToken_def emit_def tick_def Let_def)

lemma getInstallationToken_found:
  assumes "getRepoInstallation env (tick s) owner repo = Returns (Some inst)"
    and "find (\<lambda>r. it_installationId r = inst) (githubInstallationTokenTable s) = Some r"
  shows "getInstallationToken env s owner repo =
     (if now_at_check env s < it_expiresAt r - 60
      then (checked_token (decrypt env (it_ciphertext r) (it_iv r)),
            s\<lparr>trace := trace s @ [RemoteCall (GetRepoInstallation owner repo),
                                   DbQuery InstallationTokenTable, ClockRead, DecryptCall]\<rparr>)
      else mintInstallationToken env
             (s\<lparr>trace := trace s @ [RemoteCall (GetRepoInstallation owner repo),
                                    DbQuery InstallationTokenTable, ClockRead]\<rparr>)
             inst (Some r))"
  using assms
  by (simp add: getInstallationToken_def now_at_check_def emit_def tick_def)

lemma getInstallationToken_renew_Returns:
  assumes "getRepoInstallation env (tick s) owner repo = Returns (Some inst)"
    and "find (\<lambda>r. it_installationId r = inst) (githubInstallationTokenTable s) = Some r"
    and e: "\<not> now_at_check env s < it_expiresAt r - 60"
    and m: "createInstallationAccessToken env (tick s + 3) inst = Returns tok"
  shows "getInstallationToken env s owner repo =
           (Inr (at_token tok),
            s\<lparr>githubInstallationTokenTable :=
                map (\<lambda>row. if it_id row = it_id r
                            then renewed_row env (tick s + 4) tok row else row)
                  (githubInstallationTokenTable s),
              trace := trace s @ [RemoteCall (GetRepoInstallation owner repo),
                                  DbQuery InstallationTokenTable, ClockRead,
                                  RemoteCall (CreateInstallationAccessToken inst),
                                  EncryptCall, DbUpdate InstallationTokenTable]\<rparr>)"
proof -
  let ?s3 = "s\<lparr>trace := trace s @ [RemoteCall (GetRepoInstallation owner repo),
                                    DbQuery InstallationTokenTable, ClockRead]\<rparr>"
  have t: "tick ?s3 = tick s + 3"
    by (simp add: tick_def)
  from m have "createInstallationAccessToken env (tick ?s3) inst = Returns tok"
    by (simp add: t)
  moreover have "tick s + 4 = Suc (tick ?s3)"
    by (simp add: t)
  ultimately have "mintInstallationToken env ?s3 inst (Some r) =
     (Inr (at_token tok),
      ?s3\<lparr>githubInstallationTokenTable :=
          map (\<lambda>row. if it_id row = it_id r then renewed_row env (tick s + 4) tok row else row)
            (githubInstallationTokenTable ?s3),
        trace := trace ?s3 @ [RemoteCall (CreateInstallationAccessToken inst), EncryptCall,
                            DbUpdate InstallationTokenTable]\<rparr>)"
    by (rule mintInstallationToken_update)
  with e show ?thesis
    by (simp add: getInstallationToken_found [OF assms(1,2)])
qed

lemma getInstallationToken_renew_Throws:
  assumes "getRepoInstallation env (tick s) owner repo = Returns (Some inst)"
    and "find (\<lambda>r. it_installationId r = inst) (githubInstallationTokenTable s) = Some r"
    and e: "\<not> now_at_check env s < it_expiresAt r - 60"
    and m: "createInstallationAccessToken env (tick s + 3) inst = Throws"
  shows "getInstallationToken env s owner repo =
           (Inl RemoteQueryFailed,
            s\<lparr>trace := trace s @ [RemoteCall (GetRepoInstallation owner repo),
                                   DbQuery InstallationTokenTable, ClockRead,
                                   RemoteCall (CreateInstallationAccessToken inst)]\<rparr>)"
proof -
  let ?s3 = "s\<lparr>trace := trace s @ [RemoteCall (GetRepoInstallation owner repo),
                                    DbQuery InstallationTokenTable, ClockRead]\<rparr>"
  have t: "tick ?s3 = tick s + 3"
    by (simp add: tick_def)
  from m have "createInstallationAccessToken env (tick ?s3) inst = Throws"
    by (simp add: t)
  from mintInstallationToken_Throws [OF this, of "Some r"] e
  show ?thesis
    by (simp add: getInstallationToken_found [OF assms(1,2)])
qed

text \<open>
  Claim C3. Let \<open>r\<close> be the row stored for the installation of \<open>(owner, repo)\<close>. When the
  clock, in seconds, is below \<open>expiresAt - 60\<close>, \<open>getInstallationToken\<close> decrypts the row
  and returns the result: no token is minted and no table changes. Otherwise it asks the
  hosting API for a fresh token; when the API answers, the token is encrypted, written
  over the row and returned, and when the API throws the call fails after that one
  request. So a row with \<open>expiresAt = now + 120\<close> is used and one with
  \<open>expiresAt = now + 30\<close> is renewed.
\<close>

theorem installation_token_validity_window:
  assumes "getRepoInstallation env (tick s) owner repo = Returns (Some inst)"
    and "find (\<lambda>r. it_installationId r = inst) (githubInstallationTokenTable s) = Some r"
  shows
    "(now_at_check env s < it_expiresAt r - 60 \<longrightarrow>
        getInstallationToken env s owner repo =
          (checked_token (decrypt env (it_ciphertext r) (it_iv r)),
           s\<lparr>trace := trace s @ [RemoteCall (GetRepoInstallation owner repo),
                                  DbQuery InstallationTokenTable, ClockRead, DecryptCall]\<rparr>)) \<and>
     (\<not> now_at_check env s < it_expiresAt r - 60 \<longrightarrow>
        (\<forall>tok. createInstallationAccessToken env (tick s + 3) inst = Returns tok \<longrightarrow>
           getInstallationToken env s owner repo =
             (Inr (at_token tok),
              s\<lparr>githubInstallationTokenTable :=
                  map (\<lambda>row. if it_id row = it_id r
                              then renewed_row env (tick s + 4) tok row else row)
                    (githubInstallationTokenTable s),
                trace := trace s @ [RemoteCall (GetRepoInstallation owner repo),
                                    DbQuery InstallationTokenTable, ClockRead,
                                    RemoteCall (CreateInstallationAccessToken inst),
                                    EncryptCall, DbUpdate InstallationTokenTable]\<rparr>)) \<and>
        (createInstallationAccessToken env (tick s + 3) inst = Throws \<longrightarrow>
           getInstallationToken env s owner repo =
             (Inl RemoteQueryFailed,
              s\<lparr>trace := trace s @ [RemoteCall (GetRepoInstallation owner repo),
                                     DbQuery InstallationTokenTable, ClockRead,
                                     RemoteCall (CreateInstallationAccessToken inst)]\<rparr>))) \<and>
     (it_expiresAt r = now_at_check env s + 120 \<longrightarrow> now_at_check env s < it_expiresAt r - 60) \<and>
     (it_expiresAt r = now_at_check env s + 30 \<longrightarrow> \<not> now_at_check env s < it_expiresAt r - 60)"
  using getInstallationToken_found [OF assms]
    getInstallationToken_renew_Returns [OF assms]
    getInstallationToken_renew_Throws [OF assms]
  by simp

theorem installation_token_validity_window_witness:
  "getInstallationToken env0 (world_with_expiry 1700000120) ''acme'' ''site'' =
     (Inr ''ghs_old'',
      (world_with_expiry 1700000120)
        \<lparr>trace := [RemoteCall (GetRepoInstallation ''acme'' ''site''),
                   DbQuery InstallationTokenTable, ClockRead, DecryptCall]\<rparr>) \<and>
   getInstallationToken env0 (world_with_expiry 1700000030) ''acme'' ''site'' =
     (Inr ''ghs_new'',
      world0\<lparr>githubInstallationTokenTable :=
               [\<lparr>it_id = 1, it_installationId = 7, it_ciphertext = ''enc:ghs_new'',
                 it_iv = ''iv'', it_expiresAt = 1700003600\<rparr>],
             trace := [RemoteCall (GetRepoInstallation ''acme'' ''site''),
                       DbQuery InstallationTokenTable, ClockRead,
                       RemoteCall (CreateInstallationAccessToken 7),
                       EncryptCall, DbUpdate InstallationTokenTable]\<rparr>) \<and>
   getInstallationToken (env0\<lparr>createInstallationAccessToken := (\<lambda>t inst. Throws)\<rparr>)
     (world_with_expiry 1700000030) ''acme'' ''site'' =
     (Inl RemoteQueryFailed,
      (world_with_expiry 1700000030)
        \<lparr>trace := [RemoteCall (GetRepoInstallation ''acme'' ''site''),
                   DbQuery InstallationTokenTable, ClockRead,
                   RemoteCall (CreateInstallationAccessToken 7)]\<rparr>)"
proof -
  let ?row = "\<lambda>e. \<lparr>it_id = 1, it_installationId = 7, it_ciphertext = ''c7'', it_iv = ''iv7'',
                     it_expiresAt = e\<rparr>"
  let ?tok = "\<lparr>at_token = ''ghs_new'', at_expires_at = ''2023-11-14T23:13:20Z''\<rparr>"
  let ?down = "env0\<lparr>createInstallationAccessToken := (\<lambda>t inst. Throws)\<rparr>"
  have t0: "trace (world_with_expiry e) = []" "tick (world_with_expiry e) = 0" for e
    by (simp_all add: world_with_expiry_def world0_def tick_def)
  have i: "getRepoInstallation env0 (tick (world_with_expiry e)) ''acme'' ''site'' =
             Returns (Some 7)" for e
    by (simp add: env0_def)
  have f: "find (\<lambda>r. it_installationId r = 7)
             (githubInstallationTokenTable (world_with_expiry e)) = Some (?row e)" for e
    by (simp add: world_with_expiry_def)
  have v: "now_at_check env0 (world_with_expiry 1700000120) < it_expiresAt (?row 1700000120) - 60"
    "\<not> now_at_check env0 (world_with_expiry 1700000030) < it_expiresAt (?row 1700000030) - 60"
    by (simp_all add: now_at_check_def env0_def)
  have m: "createInstallationAccessToken env0 (tick (world_with_expiry 1700000030) + 3) 7 =
             Returns ?tok"
    by (simp add: env0_def)
  from installation_token_validity_window [OF i f, of 1700000120] v(1)
  have a: "getInstallationToken env0 (world_with_expiry 1700000120) ''acme'' ''site'' =
     (Inr ''ghs_old'',
      (world_with_expiry 1700000120)
        \<lparr>trace := [RemoteCall (GetRepoInstallation ''acme'' ''site''),
                   DbQuery InstallationTokenTable, ClockRead, DecryptCall]\<rparr>)"
    by (simp add: checked_token_def env0_def t0)
  from installation_token_validity_window [OF i f, of 1700000030] v(2) m
  have "getInstallationToken env0 (world_with_expiry 1700000030) ''acme'' ''site'' =
          (Inr (at_token ?tok),
           (world_with_expiry 1700000030)
             \<lparr>githubInstallationTokenTable :=
                map (\<lambda>row. if it_id row = it_id (?row 1700000030)
                            then renewed_row env0 (tick (world_with_expiry 1700000030) + 4) ?tok row
                            else row)
                  (githubInstallationTokenTable (world_with_expiry 1700000030)),
              trace := trace (world_with_expiry 1700000030) @
                       [RemoteCall (GetRepoInstallation ''acme'' ''site''),
                        DbQuery InstallationTokenTable, ClockRead,
                        RemoteCall (CreateInstallationAccessToken 7),
                        EncryptCall, DbUpdate InstallationTokenTable]\<rparr>)"
    by blast
  then have b: "getInstallationToken env0 (world_with_expiry 1700000030) ''acme'' ''site'' =
     (Inr ''ghs_new'',
      world0\<lparr>githubInstallationTokenTable :=
               [\<lparr>it_id = 1, it_installationId = 7, it_ciphertext = ''enc:ghs_new'',
                 it_iv = ''iv'', it_expiresAt = 1700003600\<rparr>],
             trace := [RemoteCall (GetRepoInstallation ''acme'' ''site''),
                       DbQuery InstallationTokenTable, ClockRead,
                       RemoteCall (CreateInstallationAccessToken 7),
                       EncryptCall, DbUpdate InstallationTokenTable]\<rparr>)"
    by (simp add: t0 renewed_row_def world_with_expiry_def env0_def trace_world0)
  have i': "getRepoInstallation ?down (tick (world_with_expiry e)) ''acme'' ''site'' =
             Returns (Some 7)" for e
    by (simp add: env0_def)
  have v': "\<not> now_at_check ?down (world_with_expiry 1700000030) <
              it_expiresAt (?row 1700000030) - 60"
    by (simp add: now_at_check_def env0_def)
  have m': "createInstallationAccessToken ?down (tick (world_with_expiry 1700000030) + 3) 7 =
              Throws"
    by simp
  from installation_token_validity_window [OF i' f, of 1700000030] v' m'
  have c: "getInstallationToken ?down (world_with_expiry 1700000030) ''acme'' ''site'' =
     (Inl RemoteQueryFailed,
      (world_with_expiry 1700000030)
        \<lparr>trace := [RemoteCall (GetRepoInstallation ''acme'' ''site''),
                   DbQuery InstallationTokenTable, ClockRead,
                   RemoteCall (CreateInstallationAccessToken 7)]\<rparr>)"
    by (simp add: t0)
  from a b c show ?thesis by (intro conjI)
qed

lemma getInstallationToken_not_found:
  assumes "getRepoInstallation env (tick s) owner repo = Returns (Some inst)"
    and "find (\<lambda>r. it_installationId r = inst) (githubInstallationTokenTable s) = None"
  shows "getInstallationToken env s owner repo =
           mintInstallationToken env
             (s\<lparr>trace := trace s @ [RemoteCall (GetRepoInstallation owner repo),
                                    DbQuery InstallationTokenTable]\<rparr>)
             inst None"
  using assms by (simp add: getInstallationToken_def emit_def)

lemma getInstallationToken_no_installation:
  assumes "getRepoInstallation env (tick s) owner repo = Throws \<or>
           getRepoInstallation env (tick s) owner repo = Returns None"
  shows "snd (getInstallationToken env s owner repo) =
           s\<lparr>trace := trace s @ [RemoteCall (GetRepoInstallation owner repo)]\<rparr>"
  using assms by (auto simp add: getInstallationToken_def emit_def)

lemma getInstallationToken_table:
  "map it_installationId
     (githubInstallationTokenTable (snd (getInstallationToken env s owner repo))) =
   map it_installationId (githubInstallationTokenTable s) \<or>
   (\<exists>inst. inst \<notin> set (map it_installationId (githubInstallationTokenTable s)) \<and>
      map it_installationId
        (githubInstallationTokenTable (snd (getInstallationToken env s owner repo))) =
      map it_installationId (githubInstallationTokenTable s) @ [inst])"
proof (cases "getRepoInstallation env (tick s) owner repo")
  case Throws
  then show ?thesis by (simp add: getInstallationToken_no_installation)
next
  case (Returns found)
  show ?thesis
  proof (cases found)
    case None
    with Returns show ?thesis by (simp add: getInstallationToken_no_installation)
  next
    case (Some inst)
    with Returns have i: "getRepoInstallation env (tick s) owner repo = Returns (Some inst)"
      by simp
    show ?thesis
    proof (cases "find (\<lambda>r. it_installationId r = inst) (githubInstallationTokenTable s)")
      case None
      let ?s2 = "s\<lparr>trace := trace s @ [RemoteCall (GetRepoInstallation owner repo),
                                    DbQuery InstallationTokenTable]\<rparr>"
      from None have fresh: "inst \<notin> set (map it_installationId (githubInstallationTokenTable s))"
        by (auto simp: find_None_iff)
      show ?thesis
      proof (cases "createInstallationAccessToken env (tick ?s2) inst")
        case Throws
        then show ?thesis
          by (simp add: getInstallationToken_not_found [OF i None] mintInstallationToken_Throws)
      next
        case (Returns tok)
        then show ?thesis using fresh
          by (simp add: getInstallationToken_not_found [OF i None] mintInstallationToken_insert)
      qed
    next
      case (Some r)
      let ?s3 = "s\<lparr>trace := trace s @ [RemoteCall (GetRepoInstallation owner repo),
                                    DbQuery InstallationTokenTable, ClockRead]\<rparr>"
      show ?thesis
      proof (cases "now_at_check env s < it_expiresAt r - 60")
        case True
        then show ?thesis by (simp add: getInstallationToken_found [OF i Some])
      next
        case False
        show ?thesis
        proof (cases "createInstallationAccessToken env (tick ?s3) inst")
          case Throws
          with False show ?thesis
            by (simp add: getInstallationToken_found [OF i Some] mintInstallationToken_Throws)
        next
          case (Returns tok)
          with False show ?thesis
            by (simp add: getInstallationToken_found [OF i Some]
                mintInstallationToken_update [OF Returns refl] renewed_row_def)
        qed
      qed
    qed
  qed
qed


text \<open>
  Claim C5. Every call of \<open>getInstallationToken\<close> keeps the installation identifiers of
  the token table pairwise distinct. When the row of the installation exists and has
  expired, the call requests exactly one fresh token, inserts nothing, and leaves the
  number of rows, their identifiers and their installation identifiers as they were; when
  the request succeeds, the rows with the identifier of the row found, and only they, are
  overwritten with the new ciphertext, initialisation vector and expiry.
\<close>

theorem renewal_updates_existing_row:
  "(distinct (map it_installationId (githubInstallationTokenTable s)) \<longrightarrow>
      distinct (map it_installationId
        (githubInstallationTokenTable (snd (getInstallationToken env s owner repo))))) \<and>
   (getRepoInstallation env (tick s) owner repo = Returns (Some inst) \<and>
    find (\<lambda>r. it_installationId r = inst) (githubInstallationTokenTable s) = Some r \<and>
    \<not> now_at_check env s < it_expiresAt r - 60 \<longrightarrow>
      (let s' = snd (getInstallationToken env s owner repo) in
       filter is_mint (events_since s s') = [RemoteCall (CreateInstallationAccessToken inst)] \<and>
       DbInsert InstallationTokenTable \<notin> set (events_since s s') \<and>
       length (githubInstallationTokenTable s') = length (githubInstallationTokenTable s) \<and>
       map it_id (githubInstallationTokenTable s') = map it_id (githubInstallationTokenTable s) \<and>
       map it_installationId (githubInstallationTokenTable s') =
         map it_installationId (githubInstallationTokenTable s) \<and>
       (\<forall>tok. createInstallationAccessToken env (tick s + 3) inst = Returns tok \<longrightarrow>
          DbUpdate InstallationTokenTable \<in> set (events_since s s') \<and>
          githubInstallationTokenTable s' =
            map (\<lambda>row. if it_id row = it_id r
                        then renewed_row env (tick s + 4) tok row else row)
              (githubInstallationTokenTable s))))"
proof (intro conjI impI)
  assume "distinct (map it_installationId (githubInstallationTokenTable s))"
  with getInstallationToken_table [of env s owner repo]
  show "distinct (map it_installationId
          (githubInstallationTokenTable (snd (getInstallationToken env s owner repo))))"
    by auto
next
  assume a: "getRepoInstallation env (tick s) owner repo = Returns (Some inst) \<and>
    find (\<lambda>r. it_installationId r = inst) (githubInstallationTokenTable s) = Some r \<and>
    \<not> now_at_check env s < it_expiresAt r - 60"
  then have i: "getRepoInstallation env (tick s) owner repo = Returns (Some inst)"
    and f: "find (\<lambda>r. it_installationId r = inst) (githubInstallationTokenTable s) = Some r"
    and e: "\<not> now_at_check env s < it_expiresAt r - 60"
    by simp_all
  show "let s' = snd (getInstallationToken env s owner repo) in
       filter is_mint (events_since s s') = [RemoteCall (CreateInstallationAccessToken inst)] \<and>
       DbInsert InstallationTokenTable \<notin> set (events_since s s') \<and>
       length (githubInstallationTokenTable s') = length (githubInstallationTokenTable s) \<and>
       map it_id (githubInstallationTokenTable s') = map it_id (githubInstallationTokenTable s) \<and>
       map it_installationId (githubInstallationTokenTable s') =
         map it_installationId (githubInstallationTokenTable s) \<and>
       (\<forall>tok. createInstallationAccessToken env (tick s + 3) inst = Returns tok \<longrightarrow>
          DbUpdate InstallationTokenTable \<in> set (events_since s s') \<and>
          githubInstallationTokenTable s' =
            map (\<lambda>row. if it_id row = it_id r
                        then renewed_row env (tick s + 4) tok row else row)
              (githubInstallationTokenTable s))"
  proof (cases "createInstallationAccessToken env (tick s + 3) inst")
    case Throws
    show ?thesis
      unfolding Let_def getInstallationToken_renew_Throws [OF i f e Throws]
      by (simp add: events_since_def Throws)
  next
    case (Returns tok)
    show ?thesis
      unfolding Let_def getInstallationToken_renew_Returns [OF i f e Returns]
      by (simp add: events_since_def Returns renewed_row_def)
  qed
qed


theorem renewal_updates_existing_row_witness:
  "distinct (map it_installationId
     (githubInstallationTokenTable
        (snd (getInstallationToken env0 (world_with_expiry 1699999999) ''acme'' ''site'')))) \<and>
   filter is_mint
     (events_since (world_with_expiry 1699999999)
        (snd (getInstallationToken env0 (world_with_expiry 1699999999) ''acme'' ''site''))) =
     [RemoteCall (CreateInstallationAccessToken 7)] \<and>
   length (githubInstallationTokenTable
     (snd (getInstallationToken env0 (world_with_expiry 1699999999) ''acme'' ''site''))) = 1"
proof -
  let ?w = "world_with_expiry 1699999999"
  let ?r = "\<lparr>it_id = 1, it_installationId = 7, it_ciphertext = ''c7'', it_iv = ''iv7'',
             it_expiresAt = 1699999999\<rparr>"
  have d: "distinct (map it_installationId (githubInstallationTokenTable ?w))"
    and l: "length (githubInstallationTokenTable ?w) = 1"
    by (simp_all add: world_with_expiry_def)
  have i: "getRepoInstallation env0 (tick ?w) ''acme'' ''site'' = Returns (Some 7)"
    by (simp add: env0_def)
  have f: "find (\<lambda>r. it_installationId r = 7) (githubInstallationTokenTable ?w) = Some ?r"
    by (simp add: world_with_expiry_def)
  have e: "\<not> now_at_check env0 ?w < it_expiresAt ?r - 60"
    by (simp add: now_at_check_def env0_def)
  from renewal_updates_existing_row [of ?w env0 "''acme''" "''site''" 7 ?r] d i f e l
  show ?thesis
    by (simp add: Let_def)
qed

section \<open>The tree cache: which files are relevant\<close>

lemma set_foldl_uniq:
  "set (foldl (\<lambda>acc x. if x \<in> set acc then acc else acc @ [x]) acc xs) = set acc \<union> set xs"
  by (induction xs arbitrary: acc) auto

lemma set_uniq: "set (uniq xs) = set xs"
  by (simp add: uniq_def set_foldl_uniq)

lemma set_parentPaths:
  "set (parentPaths env removedFiles modifiedFiles addedFiles) =
     (\<lambda>f. dirname env (rf_path f)) ` set removedFiles \<union>
     (\<lambda>f. dirname env (fc_path f)) ` set modifiedFiles \<union>
     (\<lambda>f. dirname env (fc_path f)) ` set addedFiles"
  by (simp add: parentPaths_def set_uniq Un_assoc)

lemma cachedParentPaths_iff:
  "dir \<in> set (cachedParentPaths env s owner repo branch removedFiles modifiedFiles addedFiles) \<longleftrightarrow>
     dir \<in> set (parentPaths env removedFiles modifiedFiles addedFiles) \<and>
     directory_cached s owner repo branch dir"
proof (cases "parentPaths env removedFiles modifiedFiles addedFiles = []")
  case True
  then show ?thesis by (simp add: cachedParentPaths_def)
next
  case False
  then show ?thesis
    by (auto simp: cachedParentPaths_def set_uniq directory_cached_def list_ex_iff)
qed

lemma filesToRemove_eq:
  "filesToRemove env s owner repo branch removedFiles modifiedFiles addedFiles =
     filter (\<lambda>f. directory_cached s owner repo branch (dirname env (rf_path f))) removedFiles"
  unfolding filesToRemove_def
  by (rule filter_cong) (auto simp: cachedParentPaths_iff set_parentPaths)

lemma filesToFetch_eq:
  "filesToFetch env s owner repo branch removedFiles modifiedFiles addedFiles =
     filter (\<lambda>f. directory_cached s owner repo branch (dirname env (fc_path f))) modifiedFiles @
     filter (\<lambda>f. directory_cached s owner repo branch (dirname env (fc_path f))) addedFiles"
proof -
  have "filter (\<lambda>file. dirname env (fc_path file) \<in>
                     set (cachedParentPaths env s owner repo branch
                            removedFiles modifiedFiles addedFiles)) modifiedFiles =
        filter (\<lambda>f. directory_cached s owner repo branch (dirname env (fc_path f))) modifiedFiles"
    by (rule filter_cong) (auto simp: cachedParentPaths_iff set_parentPaths)
  moreover have "filter (\<lambda>file. dirname env (fc_path file) \<in>
                     set (cachedParentPaths env s owner repo branch
                            removedFiles modifiedFiles addedFiles)) addedFiles =
        filter (\<lambda>f. directory_cached s owner repo branch (dirname env (fc_path f))) addedFiles"
    by (rule filter_cong) (auto simp: cachedParentPaths_iff set_parentPaths)
  ultimately show ?thesis by (simp add: filesToFetch_def)
qed

lemma directory_cached_emit [simp]:
  "directory_cached (emit e s) owner repo branch dir = directory_cached s owner repo branch dir"
  by (simp add: directory_cached_def emit_def)

lemma directory_cached_trace [simp]:
  "directory_cached (s\<lparr>trace := es\<rparr>) owner repo branch dir =
   directory_cached s owner repo branch dir"
  by (simp add: directory_cached_def)

text \<open>
  Claim C8. When no path of the change set lies in a cached directory, \<open>updateCache\<close>
  returns after its one query of the cache table: no row is deleted, updated or inserted
  and no remote call is made.
\<close>

theorem uncached_directories_untouched:
  assumes "\<forall>f\<in>set removedFiles. \<not> directory_cached s owner repo branch (dirname env (rf_path f))"
    and "\<forall>f\<in>set modifiedFiles. \<not> directory_cached s owner repo branch (dirname env (fc_path f))"
    and "\<forall>f\<in>set addedFiles. \<not> directory_cached s owner repo branch (dirname env (fc_path f))"
  shows "updateCache env s owner repo branch removedFiles modifiedFiles addedFiles token =
           (Inr (), s\<lparr>trace := trace s @ [DbQuery CachedEntriesTable]\<rparr>) \<and>
         filter is_mutation
           (events_since s
              (snd (updateCache env s owner repo branch removedFiles modifiedFiles addedFiles token))) =
           [] \<and>
         filter is_remote
           (events_since s
              (snd (updateCache env s owner repo branch removedFiles modifiedFiles addedFiles token))) =
           []"
proof -
  from assms(1) have r: "filesToRemove env (emit (DbQuery CachedEntriesTable) s) owner repo branch
                       removedFiles modifiedFiles addedFiles = []"
    by (simp add: filesToRemove_eq)
  from assms(2,3) have f: "filesToFetch env (emit (DbQuery CachedEntriesTable) s) owner repo branch
                        removedFiles modifiedFiles addedFiles = []"
    by (simp add: filesToFetch_eq)
  have "updateCache env s owner repo branch removedFiles modifiedFiles addedFiles token =
           (Inr (), s\<lparr>trace := trace s @ [DbQuery CachedEntriesTable]\<rparr>)"
    by (simp add: updateCache_def r f) (simp add: emit_def)
  then show ?thesis
    by (simp add: events_since_def)
qed

theorem uncached_directories_untouched_witness:
  "updateCache env0 world0 ''acme'' ''site'' ''main''
     [\<lparr>rf_path = ''z/old.txt''\<rparr>]
     [\<lparr>fc_path = ''docs/guide.md'', fc_sha = ''11''\<rparr>]
     [\<lparr>fc_path = ''new.txt'', fc_sha = ''22''\<rparr>] ''tok'' =
   (Inr (), world0\<lparr>trace := [DbQuery CachedEntriesTable]\<rparr>)"
proof -
  have d: "dirname env0 = posix_dirname"
    by (simp add: env0_def)
  have c: "\<not> directory_cached world0 ''acme'' ''site'' ''main'' (posix_dirname ''z/old.txt'')"
    "\<not> directory_cached world0 ''acme'' ''site'' ''main'' (posix_dirname ''docs/guide.md'')"
    "\<not> directory_cached world0 ''acme'' ''site'' ''main'' (posix_dirname ''new.txt'')"
    by (simp_all add: directory_cached_def world0_def entry_b_def entry_c_def posix_dirname_def)
  from uncached_directories_untouched [of "[\<lparr>rf_path = ''z/old.txt''\<rparr>]" world0 "''acme''"
      "''site''" "''main''" env0 "[\<lparr>fc_path = ''docs/guide.md'', fc_sha = ''11''\<rparr>]"
      "[\<lparr>fc_path = ''new.txt'', fc_sha = ''22''\<rparr>]" "''tok''"] c
  have "updateCache env0 world0 ''acme'' ''site'' ''main''
     [\<lparr>rf_path = ''z/old.txt''\<rparr>]
     [\<lparr>fc_path = ''docs/guide.md'', fc_sha = ''11''\<rparr>]
     [\<lparr>fc_path = ''new.txt'', fc_sha = ''22''\<rparr>] ''tok'' =
   (Inr (), world0\<lparr>trace := trace world0 @ [DbQuery CachedEntriesTable]\<rparr>)"
    unfolding d by simp
  then show ?thesis
    by (simp add: trace_world0)
qed

text \<open>
  Claim C7. When the directory has a cached child, \<open>getCachedCollection\<close> returns the
  cached children after its one query of the cache table: it makes no remote call and
  changes no table. A second call, made in the state the first one left, returns the same
  entries, again with one query and nothing else.
\<close>

theorem cache_hit_is_pure:
  assumes "directory_cached s owner repo branch path"
  shows "getCachedCollection env s owner repo branch path token =
           (Inr (filter (\<lambda>e. in_namespace owner repo branch e \<and> ce_parentPath e = path)
                   (cachedEntriesTable s)),
            s\<lparr>trace := trace s @ [DbQuery CachedEntriesTable]\<rparr>) \<and>
         filter is_mutation
           (events_since s (snd (getCachedCollection env s owner repo branch path token))) = [] \<and>
         filter is_remote
           (events_since s (snd (getCachedCollection env s owner repo branch path token))) = [] \<and>
         getCachedCollection env (snd (getCachedCollection env s owner repo branch path token))
             owner repo branch path token =
           (Inr (filter (\<lambda>e. in_namespace owner repo branch e \<and> ce_parentPath e = path)
                   (cachedEntriesTable s)),
            s\<lparr>trace := trace s @ [DbQuery CachedEntriesTable, DbQuery CachedEntriesTable]\<rparr>)"
proof -
  have hit: "getCachedCollection env w owner repo branch path token =
           (Inr (filter (\<lambda>e. in_namespace owner repo branch e \<and> ce_parentPath e = path)
                   (cachedEntriesTable w)),
            w\<lparr>trace := trace w @ [DbQuery CachedEntriesTable]\<rparr>)"
    if "directory_cached w owner repo branch path" for w
  proof -
    from that have "filter (\<lambda>e. in_namespace owner repo branch e \<and> ce_parentPath e = path)
                   (cachedEntriesTable w) \<noteq> []"
      by (auto simp: directory_cached_def list_ex_iff filter_empty_conv)
    then show ?thesis
      by (simp add: getCachedCollection_def emit_def)
  qed
  from assms have "directory_cached (s\<lparr>trace := trace s @ [DbQuery CachedEntriesTable]\<rparr>)
                     owner repo branch path"
    by simp
  from hit [OF assms] hit [OF this] show ?thesis
    by (simp add: events_since_def)
qed


theorem cache_hit_is_pure_witness:
  "getCachedCollection env0 world0 ''acme'' ''site'' ''main'' ''a'' ''tok'' =
     (Inr [entry_b, entry_c], world0\<lparr>trace := [DbQuery CachedEntriesTable]\<rparr>) \<and>
   getCachedCollection env0
       (snd (getCachedCollection env0 world0 ''acme'' ''site'' ''main'' ''a'' ''tok''))
       ''acme'' ''site'' ''main'' ''a'' ''tok'' =
     (Inr [entry_b, entry_c],
      world0\<lparr>trace := [DbQuery CachedEntriesTable, DbQuery CachedEntriesTable]\<rparr>)"
proof -
  have c: "directory_cached world0 ''acme'' ''site'' ''main'' ''a''"
    by (simp add: directory_cached_def world0_def entry_b_def in_namespace_def)
  have f: "filter (\<lambda>e. in_namespace ''acme'' ''site'' ''main'' e \<and> ce_parentPath e = ''a'')
             (cachedEntriesTable world0) = [entry_b, entry_c]"
    by (simp add: world0_def entry_b_def entry_c_def in_namespace_def)
  from cache_hit_is_pure [OF c, of env0 "''tok''"]
  have "getCachedCollection env0 world0 ''acme'' ''site'' ''main'' ''a'' ''tok'' =
          (Inr (filter (\<lambda>e. in_namespace ''acme'' ''site'' ''main'' e \<and> ce_parentPath e = ''a'')
                  (cachedEntriesTable world0)),
           world0\<lparr>trace := trace world0 @ [DbQuery CachedEntriesTable]\<rparr>)"
    and "getCachedCollection env0
           (snd (getCachedCollection env0 world0 ''acme'' ''site'' ''main'' ''a'' ''tok''))
           ''acme'' ''site'' ''main'' ''a'' ''tok'' =
          (Inr (filter (\<lambda>e. in_namespace ''acme'' ''site'' ''main'' e \<and> ce_parentPath e = ''a'')
                  (cachedEntriesTable world0)),
           world0\<lparr>trace := trace world0 @
                              [DbQuery CachedEntriesTable, DbQuery CachedEntriesTable]\<rparr>)"
    by blast+
  then show ?thesis
    unfolding f trace_world0 append_Nil by (rule conjI)
qed

section \<open>The tree cache: deletion, fetch and failure\<close>

lemma filesToRemove_emit [simp]:
  "filesToRemove env (emit e s) owner repo branch R M A = filesToRemove env s owner repo branch R M A"
  by (simp add: filesToRemove_eq)

lemma filesToFetch_emit [simp]:
  "filesToFetch env (emit e s) owner repo branch R M A = filesToFetch env s owner repo branch R M A"
  by (simp add: filesToFetch_eq)

lemma delete_removed_Nil [simp]: "delete_removed owner repo branch [] rows = rows"
  by (simp add: delete_removed_def)

lemma world_trace_self [simp]: "s\<lparr>trace := trace s\<rparr> = s"
  by simp

lemma updateCache_eq:
  "updateCache env s owner repo branch R M A token =
     (let toFetch = filesToFetch env s owner repo branch R M A;
          s2 = after_delete env s owner repo branch R M A;
          s3 = emit (RemoteCall (GraphqlBlobs token owner repo (expressions branch toFetch))) s2
      in if toFetch = [] then (Inr (), s2)
         else (case graphql_blobs env (tick s2) token owner repo (expressions branch toFetch) of
                 Throws \<Rightarrow> (Inl RemoteQueryFailed, s3)
               | Returns response \<Rightarrow>
                   (case build_updates env response 0 toFetch s3 of
                      (Inl e, s4) \<Rightarrow> (Inl e, s4)
                    | (Inr updates, s4) \<Rightarrow>
                        (Inr (), fold (apply_update env owner repo branch M) updates s4))))"
proof -
  have s2: "(if 0 < length (filesToRemove env s owner repo branch R M A)
         then (emit (DbDelete CachedEntriesTable) (emit (DbQuery CachedEntriesTable) s))
                \<lparr>cachedEntriesTable :=
                   delete_removed owner repo branch (filesToRemove env s owner repo branch R M A)
                     (cachedEntriesTable (emit (DbQuery CachedEntriesTable) s))\<rparr>
         else emit (DbQuery CachedEntriesTable) s) =
        after_delete env s owner repo branch R M A"
    by (simp add: after_delete_def emit_def)
  show ?thesis
    unfolding updateCache_def Let_def filesToFetch_emit filesToRemove_emit s2 length_0_conv
    by (rule refl)
qed

lemma build_updates_Cons:
  "build_updates env response i (f # fs) s =
     (case response_file response i of
        None \<Rightarrow> (Inl TypeError, s)
      | Some fd \<Rightarrow>
          (case fst (build_updates env response (Suc i) fs (emit ClockRead s)) of
             Inl e \<Rightarrow> Inl e
           | Inr us \<Rightarrow> Inr (\<lparr>up_path = fc_path f, up_parentPath = dirname env (fc_path f),
                              up_content = fd_text fd, up_sha = fd_oid fd,
                              up_lastUpdated = Date_now env (tick s)\<rparr> # us),
           snd (build_updates env response (Suc i) fs (emit ClockRead s))))"
  by (simp add: Let_def split: option.splits prod.splits sum.splits)

lemma build_updates_frame:
  "\<exists>n. snd (build_updates env response i fs s) = s\<lparr>trace := trace s @ replicate n ClockRead\<rparr>"
proof (induction fs arbitrary: i s)
  case Nil
  show ?case by (intro exI [of _ 0]) simp
next
  case (Cons f fs)
  show ?case
  proof (cases "response_file response i")
    case None
    then show ?thesis by (intro exI [of _ 0]) simp
  next
    case (Some fileData)
    from Cons.IH [of "Suc i" "emit ClockRead s"] obtain n where
      n: "snd (build_updates env response (Suc i) fs (emit ClockRead s)) =
            (emit ClockRead s)\<lparr>trace := trace (emit ClockRead s) @ replicate n ClockRead\<rparr>"
      by blast
    show ?thesis
    proof (intro exI [of _ "Suc n"])
      from Some n show "snd (build_updates env response i (f # fs) s) =
              s\<lparr>trace := trace s @ replicate (Suc n) ClockRead\<rparr>"
        unfolding build_updates_Cons by (simp add: emit_def)
    qed
  qed
qed

lemma build_updates_Inl:
  "fst (build_updates env response i fs s) = Inl e \<Longrightarrow> e = TypeError"
proof (induction fs arbitrary: i s)
  case Nil
  then show ?case by simp
next
  case (Cons f fs)
  show ?case
  proof (cases "response_file response i")
    case None
    with Cons.prems show ?thesis by simp
  next
    case (Some fd)
    with Cons.prems
    have "fst (build_updates env response (Suc i) fs (emit ClockRead s)) = Inl e"
      unfolding build_updates_Cons by (simp split: sum.splits)
    then show ?thesis by (rule Cons.IH)
  qed
qed

lemma build_updates_Inr:
  "build_updates env response i fs s = (Inr us, s') \<Longrightarrow>
   length us = length fs \<and>
   s' = s\<lparr>trace := trace s @ replicate (length fs) ClockRead\<rparr> \<and>
   (\<forall>j<length fs. \<exists>fd.
      response_file response (i + j) = Some fd \<and>
      us ! j = \<lparr>up_path = fc_path (fs ! j),
                up_parentPath = dirname env (fc_path (fs ! j)),
                up_content = fd_text fd, up_sha = fd_oid fd,
                up_lastUpdated = Date_now env (tick s + j)\<rparr>)"
proof (induction fs arbitrary: i s us s')
  case Nil
  then show ?case by simp
next
  case (Cons f fs)
  from Cons.prems obtain fd where fd: "response_file response i = Some fd"
    by (auto split: option.splits)
  let ?u = "\<lparr>up_path = fc_path f, up_parentPath = dirname env (fc_path f),
             up_content = fd_text fd, up_sha = fd_oid fd,
             up_lastUpdated = Date_now env (tick s)\<rparr>"
  from Cons.prems fd obtain us' where
    rec: "build_updates env response (Suc i) fs (emit ClockRead s) = (Inr us', s')"
    and us: "us = ?u # us'"
    by (auto simp: Let_def split: prod.splits sum.splits)
  from Cons.IH [OF rec] have
    len: "length us' = length fs"
    and st: "s' = (emit ClockRead s)\<lparr>trace := trace (emit ClockRead s) @
                                               replicate (length fs) ClockRead\<rparr>"
    and el: "\<forall>j<length fs. \<exists>fd.
      response_file response (Suc i + j) = Some fd \<and>
      us' ! j = \<lparr>up_path = fc_path (fs ! j),
                up_parentPath = dirname env (fc_path (fs ! j)),
                up_content = fd_text fd, up_sha = fd_oid fd,
                up_lastUpdated = Date_now env (tick (emit ClockRead s) + j)\<rparr>"
    by blast+
  have "\<exists>fd'. response_file response (i + j) = Some fd' \<and>
      us ! j = \<lparr>up_path = fc_path ((f # fs) ! j),
                up_parentPath = dirname env (fc_path ((f # fs) ! j)),
                up_content = fd_text fd', up_sha = fd_oid fd',
                up_lastUpdated = Date_now env (tick s + j)\<rparr>"
    if "j < length (f # fs)" for j
  proof (cases j)
    case 0
    with fd us show ?thesis by simp
  next
    case (Suc k)
    with that have "k < length fs" by simp
    with el obtain fd' where "response_file response (Suc i + k) = Some fd'"
      "us' ! k = \<lparr>up_path = fc_path (fs ! k),
                up_parentPath = dirname env (fc_path (fs ! k)),
                up_content = fd_text fd', up_sha = fd_oid fd',
                up_lastUpdated = Date_now env (tick (emit ClockRead s) + k)\<rparr>"
      by blast
    with Suc us show ?thesis by (simp add: tick_emit)
  qed
  with len us st show ?case
    by (simp add: emit_def replicate_append_same)
qed

lemma fold_apply_update:
  "fold (apply_update env owner repo branch M) us s =
     s\<lparr>cachedEntriesTable := cachedEntriesTable (fold (apply_update env owner repo branch M) us s),
       trace := trace s @ map (update_event M) us\<rparr>"
proof (induction us arbitrary: s)
  case Nil
  show ?case by simp
next
  case (Cons u us)
  have "fold (apply_update env owner repo branch M) (u # us) s =
        fold (apply_update env owner repo branch M) us (apply_update env owner repo branch M u s)"
    by simp
  also have "\<dots> = (apply_update env owner repo branch M u s)
      \<lparr>cachedEntriesTable :=
         cachedEntriesTable (fold (apply_update env owner repo branch M) us
           (apply_update env owner repo branch M u s)),
       trace := trace (apply_update env owner repo branch M u s) @ map (update_event M) us\<rparr>"
    by (rule Cons.IH)
  also have "\<dots> = s\<lparr>cachedEntriesTable :=
         cachedEntriesTable (fold (apply_update env owner repo branch M) (u # us) s),
       trace := trace s @ map (update_event M) (u # us)\<rparr>"
    by (simp add: apply_update_def update_event_def emit_def Let_def)
  finally show ?case .
qed


lemma updateCache_no_fetch:
  "filesToFetch env s owner repo branch R M A = [] \<Longrightarrow>
   updateCache env s owner repo branch R M A token =
     (Inr (), after_delete env s owner repo branch R M A)"
  by (simp add: updateCache_eq Let_def)

lemma updateCache_Throws:
  assumes "filesToFetch env s owner repo branch R M A \<noteq> []"
    and "graphql_blobs env (tick (after_delete env s owner repo branch R M A)) token owner repo
           (expressions branch (filesToFetch env s owner repo branch R M A)) = Throws"
  shows "updateCache env s owner repo branch R M A token =
     (Inl RemoteQueryFailed,
      emit (RemoteCall (GraphqlBlobs token owner repo
              (expressions branch (filesToFetch env s owner repo branch R M A))))
        (after_delete env s owner repo branch R M A))"
  using assms by (simp add: updateCache_eq Let_def)

lemma updateCache_failure:
  assumes "fst (updateCache env s owner repo branch R M A token) = Inl e"
  shows "\<exists>n. snd (updateCache env s owner repo branch R M A token) =
           (after_delete env s owner repo branch R M A)
             \<lparr>trace := trace (after_delete env s owner repo branch R M A) @
                RemoteCall (GraphqlBlobs token owner repo
                  (expressions branch (filesToFetch env s owner repo branch R M A))) #
                replicate n ClockRead\<rparr>"
proof -
  let ?s2 = "after_delete env s owner repo branch R M A"
  let ?toFetch = "filesToFetch env s owner repo branch R M A"
  let ?s3 = "emit (RemoteCall (GraphqlBlobs token owner repo (expressions branch ?toFetch))) ?s2"
  from assms have ne: "?toFetch \<noteq> []"
    by (auto simp: updateCache_eq Let_def)
  show ?thesis
  proof (cases "graphql_blobs env (tick ?s2) token owner repo (expressions branch ?toFetch)")
    case Throws
    with ne show ?thesis
      by (intro exI [of _ 0]) (simp add: updateCache_eq Let_def emit_def)
  next
    case (Returns response)
    obtain r s4 where b: "build_updates env response 0 ?toFetch ?s3 = (r, s4)"
      by (cases "build_updates env response 0 ?toFetch ?s3")
    from build_updates_frame [of env response 0 ?toFetch ?s3] b obtain n where
      s4: "s4 = ?s3\<lparr>trace := trace ?s3 @ replicate n ClockRead\<rparr>"
      by auto
    from assms ne Returns b obtain e' where "r = Inl e'"
      by (cases r) (auto simp: updateCache_eq Let_def)
    with ne Returns b s4 show ?thesis
      by (intro exI [of _ n]) (simp add: updateCache_eq Let_def emit_def)
  qed
qed

lemma updateCache_trace:
  assumes "filesToFetch env s owner repo branch R M A \<noteq> []"
  shows "\<exists>rest. trace (snd (updateCache env s owner repo branch R M A token)) =
           trace (after_delete env s owner repo branch R M A) @
           RemoteCall (GraphqlBlobs token owner repo
             (expressions branch (filesToFetch env s owner repo branch R M A))) # rest \<and>
           set rest \<subseteq> {ClockRead, DbUpdate CachedEntriesTable, DbInsert CachedEntriesTable}"
proof -
  let ?s2 = "after_delete env s owner repo branch R M A"
  let ?toFetch = "filesToFetch env s owner repo branch R M A"
  let ?s3 = "emit (RemoteCall (GraphqlBlobs token owner repo (expressions branch ?toFetch))) ?s2"
  show ?thesis
  proof (cases "graphql_blobs env (tick ?s2) token owner repo (expressions branch ?toFetch)")
    case Throws
    with assms show ?thesis
      by (intro exI [of _ "[]"]) (simp add: updateCache_eq Let_def emit_def)
  next
    case (Returns response)
    obtain r s4 where b: "build_updates env response 0 ?toFetch ?s3 = (r, s4)"
      by (cases "build_updates env response 0 ?toFetch ?s3")
    from build_updates_frame [of env response 0 ?toFetch ?s3] b obtain n where
      s4: "s4 = ?s3\<lparr>trace := trace ?s3 @ replicate n ClockRead\<rparr>"
      by auto
    show ?thesis
    proof (cases r)
      case (Inl e')
      with assms Returns b s4 show ?thesis
        by (intro exI [of _ "replicate n ClockRead"]) (auto simp: updateCache_eq Let_def emit_def)
    next
      case (Inr us)
      have "trace (fold (apply_update env owner repo branch M) us s4) =
              trace s4 @ map (update_event M) us"
        by (subst fold_apply_update) simp
      with assms Returns b s4 Inr show ?thesis
        by (intro exI [of _ "replicate n ClockRead @ map (update_event M) us"])
           (auto simp: updateCache_eq Let_def emit_def update_event_def)
    qed
  qed
qed

lemma updateCache_error_kind:
  assumes "fst (updateCache env s owner repo branch R M A token) = Inl e"
  shows "e = RemoteQueryFailed \<or> e = TypeError"
proof -
  let ?s2 = "after_delete env s owner repo branch R M A"
  let ?toFetch = "filesToFetch env s owner repo branch R M A"
  let ?s3 = "emit (RemoteCall (GraphqlBlobs token owner repo (expressions branch ?toFetch))) ?s2"
  from assms have ne: "?toFetch \<noteq> []"
    by (auto simp: updateCache_eq Let_def)
  show ?thesis
  proof (cases "graphql_blobs env (tick ?s2) token owner repo (expressions branch ?toFetch)")
    case Throws
    with ne assms show ?thesis
      by (simp add: updateCache_eq Let_def)
  next
    case (Returns response)
    with ne assms have "fst (build_updates env response 0 ?toFetch ?s3) = Inl e"
      by (auto simp: updateCache_eq Let_def split: prod.splits sum.splits)
    then show ?thesis
      by (simp add: build_updates_Inl)
  qed
qed

lemma trace_after_delete:
  "trace (after_delete env s owner repo branch R M A) =
     trace s @ DbQuery CachedEntriesTable #
       (if filesToRemove env s owner repo branch R M A = [] then []
        else [DbDelete CachedEntriesTable])"
  by (simp add: after_delete_def Let_def)

text \<open>
  Claim C2. Let \<open>fetched\<close> be the modified files followed by the added files whose parent
  directory is cached. When it is not empty, the remote calls of \<open>updateCache\<close> are exactly
  one: the batched query whose expressions are \<open>branch:path\<close> for each file of \<open>fetched\<close>,
  in that order, one expression per file. This holds whatever the length of \<open>fetched\<close> and
  whatever the outcome of the query.
\<close>

theorem reconcile_one_batched_query:
  assumes "fetched =
             filter (\<lambda>f. directory_cached s owner repo branch (dirname env (fc_path f))) modifiedFiles @
             filter (\<lambda>f. directory_cached s owner repo branch (dirname env (fc_path f))) addedFiles"
    and "fetched \<noteq> []"
  shows "filter is_remote
           (events_since s
              (snd (updateCache env s owner repo branch removedFiles modifiedFiles addedFiles token))) =
         [RemoteCall (GraphqlBlobs token owner repo
            (map (\<lambda>f. branch @ '':'' @ fc_path f) fetched))] \<and>
         length (map (\<lambda>f. branch @ '':'' @ fc_path f) fetched) = length fetched \<and>
         take (length (trace s))
           (trace (snd (updateCache env s owner repo branch removedFiles modifiedFiles addedFiles token))) =
         trace s"
proof -
  from assms have f: "filesToFetch env s owner repo branch removedFiles modifiedFiles addedFiles = fetched"
    by (simp add: filesToFetch_eq)
  with assms(2) updateCache_trace [of env s owner repo branch removedFiles modifiedFiles addedFiles token]
  obtain rest where
    t: "trace (snd (updateCache env s owner repo branch removedFiles modifiedFiles addedFiles token)) =
          trace (after_delete env s owner repo branch removedFiles modifiedFiles addedFiles) @
          RemoteCall (GraphqlBlobs token owner repo (expressions branch fetched)) # rest"
    and r: "set rest \<subseteq> {ClockRead, DbUpdate CachedEntriesTable, DbInsert CachedEntriesTable}"
    by auto
  from r have "filter is_remote rest = []"
    by (auto simp: filter_empty_conv)
  with t show ?thesis
    by (simp add: events_since_def trace_after_delete expressions_def)
qed


theorem reconcile_one_batched_query_witness:
  "filter is_remote
     (events_since world0
        (snd (updateCache env0 world0 ''acme'' ''site'' ''main''
                [\<lparr>rf_path = ''a/b.txt''\<rparr>]
                [\<lparr>fc_path = ''a/c.txt'', fc_sha = ''c1''\<rparr>]
                [\<lparr>fc_path = ''a/d.txt'', fc_sha = ''d1''\<rparr>, \<lparr>fc_path = ''z/e.txt'', fc_sha = ''e1''\<rparr>]
                ''tok''))) =
   [RemoteCall (GraphqlBlobs ''tok'' ''acme'' ''site'' [''main:a/c.txt'', ''main:a/d.txt''])]"
proof -
  let ?M = "[\<lparr>fc_path = ''a/c.txt'', fc_sha = ''c1''\<rparr>]"
  let ?A = "[\<lparr>fc_path = ''a/d.txt'', fc_sha = ''d1''\<rparr>, \<lparr>fc_path = ''z/e.txt'', fc_sha = ''e1''\<rparr>]"
  let ?fetched = "[\<lparr>fc_path = ''a/c.txt'', fc_sha = ''c1''\<rparr>, \<lparr>fc_path = ''a/d.txt'', fc_sha = ''d1''\<rparr>]"
  have d: "dirname env0 = posix_dirname"
    by (simp add: env0_def)
  have c: "directory_cached world0 ''acme'' ''site'' ''main'' ''a''"
    "\<not> directory_cached world0 ''acme'' ''site'' ''main'' ''z''"
    by (simp_all add: directory_cached_def world0_def entry_b_def entry_c_def in_namespace_def)
  have p: "posix_dirname ''a/c.txt'' = ''a''" "posix_dirname ''a/d.txt'' = ''a''"
    "posix_dirname ''z/e.txt'' = ''z''"
    by (simp_all add: posix_dirname_def)
  have f: "?fetched =
      filter (\<lambda>f. directory_cached world0 ''acme'' ''site'' ''main'' (dirname env0 (fc_path f))) ?M @
      filter (\<lambda>f. directory_cached world0 ''acme'' ''site'' ''main'' (dirname env0 (fc_path f))) ?A"
    by (simp add: d p c)
  have n: "?fetched \<noteq> []"
    by simp
  from reconcile_one_batched_query [OF f n, of "[\<lparr>rf_path = ''a/b.txt''\<rparr>]" "''tok''"]
  show ?thesis
    by simp
qed

text \<open>
  Claim C4. When the batched query throws, \<open>updateCache\<close> fails with \<open>RemoteQueryFailed\<close>
  in the state reached after the deletion step, with the query as the only further event.
  Whenever \<open>updateCache\<close> fails, it is the fetch that failed (the query threw, or the
  response lacks the object of a file), the cache table is the initial one without the
  removed paths of cached directories, and no update or insert statement was issued. In every run
  the deletion step comes first: the trace of the final state extends that of the state
  after the deletion step, by events that are no delete statements; the table of that
  state is the initial one without the removed paths of cached directories.
\<close>

theorem failed_fetch_keeps_deletion_only:
  "(filesToFetch env s owner repo branch R M A \<noteq> [] \<and>
    graphql_blobs env (tick (after_delete env s owner repo branch R M A)) token owner repo
      (expressions branch (filesToFetch env s owner repo branch R M A)) = Throws \<longrightarrow>
      updateCache env s owner repo branch R M A token =
        (Inl RemoteQueryFailed,
         (after_delete env s owner repo branch R M A)
           \<lparr>trace := trace (after_delete env s owner repo branch R M A) @
              [RemoteCall (GraphqlBlobs token owner repo
                 (expressions branch (filesToFetch env s owner repo branch R M A)))]\<rparr>)) \<and>
   (\<forall>e. fst (updateCache env s owner repo branch R M A token) = Inl e \<longrightarrow>
      (e = RemoteQueryFailed \<or> e = TypeError) \<and>
      cachedEntriesTable (snd (updateCache env s owner repo branch R M A token)) =
        delete_removed owner repo branch
          (filter (\<lambda>f. directory_cached s owner repo branch (dirname env (rf_path f))) R)
          (cachedEntriesTable s) \<and>
      DbInsert CachedEntriesTable \<notin>
        set (events_since s (snd (updateCache env s owner repo branch R M A token))) \<and>
      DbUpdate CachedEntriesTable \<notin>
        set (events_since s (snd (updateCache env s owner repo branch R M A token)))) \<and>
   (\<exists>rest. trace (snd (updateCache env s owner repo branch R M A token)) =
             trace (after_delete env s owner repo branch R M A) @ rest \<and>
           DbDelete CachedEntriesTable \<notin> set rest) \<and>
   cachedEntriesTable (after_delete env s owner repo branch R M A) =
     delete_removed owner repo branch
       (filter (\<lambda>f. directory_cached s owner repo branch (dirname env (rf_path f))) R)
       (cachedEntriesTable s) \<and>
   trace (after_delete env s owner repo branch R M A) =
     trace s @ DbQuery CachedEntriesTable #
       (if filter (\<lambda>f. directory_cached s owner repo branch (dirname env (rf_path f))) R = []
        then [] else [DbDelete CachedEntriesTable])"
proof (intro conjI impI allI)
  assume "filesToFetch env s owner repo branch R M A \<noteq> [] \<and>
    graphql_blobs env (tick (after_delete env s owner repo branch R M A)) token owner repo
      (expressions branch (filesToFetch env s owner repo branch R M A)) = Throws"
  then show "updateCache env s owner repo branch R M A token =
        (Inl RemoteQueryFailed,
         (after_delete env s owner repo branch R M A)
           \<lparr>trace := trace (after_delete env s owner repo branch R M A) @
              [RemoteCall (GraphqlBlobs token owner repo
                 (expressions branch (filesToFetch env s owner repo branch R M A)))]\<rparr>)"
    by (simp add: updateCache_Throws emit_def)
next
  fix e
  assume fails: "fst (updateCache env s owner repo branch R M A token) = Inl e"
  then show "e = RemoteQueryFailed \<or> e = TypeError"
    by (rule updateCache_error_kind)
  from updateCache_failure [OF fails] obtain n where
    n: "snd (updateCache env s owner repo branch R M A token) =
           (after_delete env s owner repo branch R M A)
             \<lparr>trace := trace (after_delete env s owner repo branch R M A) @
                RemoteCall (GraphqlBlobs token owner repo
                  (expressions branch (filesToFetch env s owner repo branch R M A))) #
                replicate n ClockRead\<rparr>"
    by blast
  show "cachedEntriesTable (snd (updateCache env s owner repo branch R M A token)) =
        delete_removed owner repo branch
          (filter (\<lambda>f. directory_cached s owner repo branch (dirname env (rf_path f))) R)
          (cachedEntriesTable s)"
    unfolding n by (simp add: after_delete_def Let_def filesToRemove_eq)
  show "DbInsert CachedEntriesTable \<notin>
        set (events_since s (snd (updateCache env s owner repo branch R M A token)))"
    unfolding n by (simp add: events_since_def trace_after_delete)
  show "DbUpdate CachedEntriesTable \<notin>
        set (events_since s (snd (updateCache env s owner repo branch R M A token)))"
    unfolding n by (simp add: events_since_def trace_after_delete)
next
  show "\<exists>rest. trace (snd (updateCache env s owner repo branch R M A token)) =
             trace (after_delete env s owner repo branch R M A) @ rest \<and>
           DbDelete CachedEntriesTable \<notin> set rest"
  proof (cases "filesToFetch env s owner repo branch R M A = []")
    case True
    then show ?thesis
      by (intro exI [of _ "[]"]) (simp add: updateCache_no_fetch)
  next
    case False
    from updateCache_trace [OF False, of token] obtain rest where
      "trace (snd (updateCache env s owner repo branch R M A token)) =
           trace (after_delete env s owner repo branch R M A) @
           RemoteCall (GraphqlBlobs token owner repo
             (expressions branch (filesToFetch env s owner repo branch R M A))) # rest"
      "set rest \<subseteq> {ClockRead, DbUpdate CachedEntriesTable, DbInsert CachedEntriesTable}"
      by blast
    then show ?thesis
      by (intro exI [of _ "RemoteCall (GraphqlBlobs token owner repo
             (expressions branch (filesToFetch env s owner repo branch R M A))) # rest"]) auto
  qed
next
  show "cachedEntriesTable (after_delete env s owner repo branch R M A) =
     delete_removed owner repo branch
       (filter (\<lambda>f. directory_cached s owner repo branch (dirname env (rf_path f))) R)
       (cachedEntriesTable s)"
    by (simp add: after_delete_def Let_def filesToRemove_eq)
next
  show "trace (after_delete env s owner repo branch R M A) =
     trace s @ DbQuery CachedEntriesTable #
       (if filter (\<lambda>f. directory_cached s owner repo branch (dirname env (rf_path f))) R = []
        then [] else [DbDelete CachedEntriesTable])"
    by (simp add: trace_after_delete filesToRemove_eq)
qed


theorem failed_fetch_keeps_deletion_only_witness:
  "updateCache (env0\<lparr>graphql_blobs := (\<lambda>t token owner repo exprs. Throws)\<rparr>) world0
     ''acme'' ''site'' ''main''
     [\<lparr>rf_path = ''a/b.txt''\<rparr>] [\<lparr>fc_path = ''a/c.txt'', fc_sha = ''c1''\<rparr>] [] ''tok'' =
   (Inl RemoteQueryFailed,
    world0\<lparr>cachedEntriesTable := [entry_c],
           trace := [DbQuery CachedEntriesTable, DbDelete CachedEntriesTable,
                     RemoteCall (GraphqlBlobs ''tok'' ''acme'' ''site'' [''main:a/c.txt''])]\<rparr>)"
proof -
  let ?env = "env0\<lparr>graphql_blobs := (\<lambda>t token owner repo exprs. Throws)\<rparr>"
  let ?R = "[\<lparr>rf_path = ''a/b.txt''\<rparr>]"
  let ?M = "[\<lparr>fc_path = ''a/c.txt'', fc_sha = ''c1''\<rparr>]"
  have d: "dirname ?env = posix_dirname"
    by (simp add: env0_def)
  have c: "directory_cached world0 ''acme'' ''site'' ''main'' ''a''"
    by (simp add: directory_cached_def world0_def entry_b_def in_namespace_def)
  have p: "posix_dirname ''a/c.txt'' = ''a''" "posix_dirname ''a/b.txt'' = ''a''"
    by (simp_all add: posix_dirname_def)
  have f: "filesToFetch ?env world0 ''acme'' ''site'' ''main'' ?R ?M [] = ?M"
    by (simp add: filesToFetch_eq d p c)
  have r: "filesToRemove ?env world0 ''acme'' ''site'' ''main'' ?R ?M [] = ?R"
    by (simp add: filesToRemove_eq d p c)
  have a: "after_delete ?env world0 ''acme'' ''site'' ''main'' ?R ?M [] =
             world0\<lparr>cachedEntriesTable := [entry_c],
                    trace := [DbQuery CachedEntriesTable, DbDelete CachedEntriesTable]\<rparr>"
    unfolding after_delete_def r Let_def
    by (simp add: delete_removed_def world0_def entry_b_def entry_c_def in_namespace_def)
  have g: "graphql_blobs ?env
             (tick (after_delete ?env world0 ''acme'' ''site'' ''main'' ?R ?M [])) ''tok''
             ''acme'' ''site''
             (expressions ''main'' (filesToFetch ?env world0 ''acme'' ''site'' ''main'' ?R ?M [])) =
           Throws"
    by simp
  have n: "filesToFetch ?env world0 ''acme'' ''site'' ''main'' ?R ?M [] \<noteq> []"
    by (simp add: f)
  from failed_fetch_keeps_deletion_only
         [of ?env world0 "''acme''" "''site''" "''main''" ?R ?M "[]" "''tok''"] n g
  have "updateCache ?env world0 ''acme'' ''site'' ''main'' ?R ?M [] ''tok'' =
        (Inl RemoteQueryFailed,
         (after_delete ?env world0 ''acme'' ''site'' ''main'' ?R ?M [])
           \<lparr>trace := trace (after_delete ?env world0 ''acme'' ''site'' ''main'' ?R ?M []) @
              [RemoteCall (GraphqlBlobs ''tok'' ''acme'' ''site''
                 (expressions ''main''
                    (filesToFetch ?env world0 ''acme'' ''site'' ''main'' ?R ?M [])))]\<rparr>)"
    by blast
  then show ?thesis
    unfolding a f by (simp add: expressions_def)
qed

section \<open>The tree cache: updates and inserts\<close>

lemma fold_apply_update_modified:
  "\<forall>u\<in>set us. list_ex (\<lambda>f. fc_path f = up_path u) M \<Longrightarrow>
   cachedEntriesTable (fold (apply_update env owner repo branch M) us s) =
     map (fold (update_row owner repo branch) us) (cachedEntriesTable s)"
proof (induction us arbitrary: s)
  case Nil
  show ?case by simp
next
  case (Cons u us)
  from Cons.prems have t: "cachedEntriesTable (apply_update env owner repo branch M u s) =
                       map (update_row owner repo branch u) (cachedEntriesTable s)"
    by (simp add: apply_update_def)
  from Cons.prems have "\<forall>u\<in>set us. list_ex (\<lambda>f. fc_path f = up_path u) M"
    by simp
  from Cons.IH [OF this, of "apply_update env owner repo branch M u s"] t
  show ?case by simp
qed

lemma fold_apply_update_added:
  "\<forall>u\<in>set us. \<not> list_ex (\<lambda>f. fc_path f = up_path u) M \<Longrightarrow>
   cachedEntriesTable (fold (apply_update env owner repo branch M) us s) =
     cachedEntriesTable s @ map (new_row env owner repo branch) us"
proof (induction us arbitrary: s)
  case Nil
  show ?case by simp
next
  case (Cons u us)
  from Cons.prems have t: "cachedEntriesTable (apply_update env owner repo branch M u s) =
                       cachedEntriesTable s @ [new_row env owner repo branch u]"
    by (simp add: apply_update_def)
  from Cons.prems have "\<forall>u\<in>set us. \<not> list_ex (\<lambda>f. fc_path f = up_path u) M"
    by simp
  from Cons.IH [OF this, of "apply_update env owner repo branch M u s"] t
  show ?case by simp
qed

lemma fold_apply_update_table:
  assumes "\<forall>u\<in>set usM. list_ex (\<lambda>f. fc_path f = up_path u) M"
    and "\<forall>u\<in>set usA. \<not> list_ex (\<lambda>f. fc_path f = up_path u) M"
  shows "cachedEntriesTable (fold (apply_update env owner repo branch M) (usM @ usA) s) =
           map (fold (update_row owner repo branch) usM) (cachedEntriesTable s) @
           map (new_row env owner repo branch) usA"
  by (simp add: fold_apply_update_added [OF assms(2)] fold_apply_update_modified [OF assms(1)])

lemma same_identity_refl [simp]: "same_identity e e"
  by (simp add: same_identity_def)

lemma same_identity_update_row: "same_identity e (update_row owner repo branch u e)"
  by (simp add: same_identity_def update_row_def)

lemma same_identity_trans:
  "same_identity a b \<Longrightarrow> same_identity b c \<Longrightarrow> same_identity a c"
  by (simp add: same_identity_def)

lemma same_identity_fold: "same_identity e (fold (update_row owner repo branch) us e)"
proof (induction us arbitrary: e)
  case Nil
  show ?case by simp
next
  case (Cons u us)
  have "same_identity e (fold (update_row owner repo branch) us (update_row owner repo branch u e))"
    by (rule same_identity_trans [OF same_identity_update_row Cons.IH])
  then show ?case by simp
qed

lemma fold_update_row_other:
  "\<not> (in_namespace owner repo branch e \<and> ce_path e \<in> up_path ` set us) \<Longrightarrow>
   fold (update_row owner repo branch) us e = e"
proof (induction us)
  case Nil
  show ?case by simp
next
  case (Cons u us)
  from Cons.prems have "update_row owner repo branch u e = e"
    by (auto simp: update_row_def)
  moreover from Cons.prems
  have "\<not> (in_namespace owner repo branch e \<and> ce_path e \<in> up_path ` set us)"
    by auto
  ultimately show ?case
    using Cons.IH by simp
qed

lemma written_defined: "v \<noteq> Undefined \<Longrightarrow> written v old = column_of v"
  by (cases v) (simp_all add: written_def column_of_def)

lemma response_file_Some:
  "response_file response k = Some fd \<Longrightarrow> k < length response \<and> response ! k = Some fd"
  by (simp add: response_file_def split: if_splits)

lemma fold_update_row_hit:
  "in_namespace owner repo branch e \<Longrightarrow> ce_path e \<in> up_path ` set us \<Longrightarrow>
   \<exists>k<length us. up_path (us ! k) = ce_path e \<and>
     (\<forall>k'<length us. k < k' \<longrightarrow> up_path (us ! k') \<noteq> ce_path e) \<and>
     ce_lastUpdated (fold (update_row owner repo branch) us e) = up_lastUpdated (us ! k) \<and>
     (up_content (us ! k) \<noteq> Undefined \<longrightarrow>
        ce_content (fold (update_row owner repo branch) us e) = column_of (up_content (us ! k))) \<and>
     (up_sha (us ! k) \<noteq> Undefined \<longrightarrow>
        ce_sha (fold (update_row owner repo branch) us e) = column_of (up_sha (us ! k))) \<and>
     ((\<forall>k'<k. up_path (us ! k') \<noteq> ce_path e) \<longrightarrow>
        ce_content (fold (update_row owner repo branch) us e) =
          written (up_content (us ! k)) (ce_content e) \<and>
        ce_sha (fold (update_row owner repo branch) us e) =
          written (up_sha (us ! k)) (ce_sha e))"
proof (induction us rule: rev_induct)
  case Nil
  then show ?case by simp
next
  case (snoc u us)
  define e' where "e' = fold (update_row owner repo branch) us e"
  have id: "same_identity e e'"
    unfolding e'_def by (rule same_identity_fold)
  from id snoc.prems(1) have ns: "in_namespace owner repo branch e'"
    by (simp add: same_identity_def in_namespace_def)
  from id have p: "ce_path e' = ce_path e"
    by (simp add: same_identity_def)
  have step: "fold (update_row owner repo branch) (us @ [u]) e = update_row owner repo branch u e'"
    by (simp add: e'_def)
  show ?case
  proof (cases "up_path u = ce_path e")
    case True
    with ns p have r: "update_row owner repo branch u e' =
                      e'\<lparr>ce_content := written (up_content u) (ce_content e'),
                         ce_sha := written (up_sha u) (ce_sha e'),
                         ce_lastUpdated := up_lastUpdated u\<rparr>"
      by (simp add: update_row_def)
    have first: "e' = e" if "\<forall>k'<length us. up_path ((us @ [u]) ! k') \<noteq> ce_path e"
    proof -
      from that have "ce_path e \<notin> up_path ` set us"
        by (auto simp: in_set_conv_nth nth_append)
      then have "\<not> (in_namespace owner repo branch e \<and> ce_path e \<in> up_path ` set us)"
        by simp
      from fold_update_row_other [OF this] show ?thesis
        by (simp add: e'_def)
    qed
    show ?thesis
    proof (intro exI [of _ "length us"] conjI impI allI)
      show "length us < length (us @ [u])" by simp
      show "up_path ((us @ [u]) ! length us) = ce_path e"
        using True by simp
      show "up_path ((us @ [u]) ! k') \<noteq> ce_path e"
        if "k' < length (us @ [u])" "length us < k'" for k'
        using that by simp
      show "ce_lastUpdated (fold (update_row owner repo branch) (us @ [u]) e) =
              up_lastUpdated ((us @ [u]) ! length us)"
        unfolding step r by simp
      show "ce_content (fold (update_row owner repo branch) (us @ [u]) e) =
              column_of (up_content ((us @ [u]) ! length us))"
        if "up_content ((us @ [u]) ! length us) \<noteq> Undefined"
        using that unfolding step r by (simp add: written_defined)
      show "ce_sha (fold (update_row owner repo branch) (us @ [u]) e) =
              column_of (up_sha ((us @ [u]) ! length us))"
        if "up_sha ((us @ [u]) ! length us) \<noteq> Undefined"
        using that unfolding step r by (simp add: written_defined)
      show "ce_content (fold (update_row owner repo branch) (us @ [u]) e) =
              written (up_content ((us @ [u]) ! length us)) (ce_content e)"
        if "\<forall>k'<length us. up_path ((us @ [u]) ! k') \<noteq> ce_path e"
        unfolding step r using first [OF that] by simp
      show "ce_sha (fold (update_row owner repo branch) (us @ [u]) e) =
              written (up_sha ((us @ [u]) ! length us)) (ce_sha e)"
        if "\<forall>k'<length us. up_path ((us @ [u]) ! k') \<noteq> ce_path e"
        unfolding step r using first [OF that] by simp
    qed
  next
    case False
    with snoc.prems have "ce_path e \<in> up_path ` set us"
      by auto
    from snoc.IH [OF snoc.prems(1) this] obtain k where
      k: "k < length us" "up_path (us ! k) = ce_path e"
      and last: "\<forall>k'<length us. k < k' \<longrightarrow> up_path (us ! k') \<noteq> ce_path e"
      and lu: "ce_lastUpdated e' = up_lastUpdated (us ! k)"
      and c: "up_content (us ! k) \<noteq> Undefined \<longrightarrow> ce_content e' = column_of (up_content (us ! k))"
      and h: "up_sha (us ! k) \<noteq> Undefined \<longrightarrow> ce_sha e' = column_of (up_sha (us ! k))"
      and fst: "(\<forall>k'<k. up_path (us ! k') \<noteq> ce_path e) \<longrightarrow>
                  ce_content e' = written (up_content (us ! k)) (ce_content e) \<and>
                  ce_sha e' = written (up_sha (us ! k)) (ce_sha e)"
      unfolding e'_def by blast
    from False p have same: "update_row owner repo branch u e' = e'"
      by (simp add: update_row_def)
    have nk: "(us @ [u]) ! k = us ! k"
      using k(1) by (simp add: nth_append)
    have below: "(us @ [u]) ! k' = us ! k'" if "k' < k" for k'
      using that k(1) by (simp add: nth_append)
    show ?thesis
    proof (intro exI [of _ k] conjI impI allI)
      show "k < length (us @ [u])" using k(1) by simp
      show "up_path ((us @ [u]) ! k) = ce_path e" using k(2) nk by simp
      show "up_path ((us @ [u]) ! k') \<noteq> ce_path e"
        if "k' < length (us @ [u])" "k < k'" for k'
      proof (cases "k' < length us")
        case True
        with last that show ?thesis by (simp add: nth_append)
      next
        case False
        with that have "k' = length us" by simp
        with \<open>up_path u \<noteq> ce_path e\<close> show ?thesis by simp
      qed
      show "ce_lastUpdated (fold (update_row owner repo branch) (us @ [u]) e) =
              up_lastUpdated ((us @ [u]) ! k)"
        unfolding step same nk by (rule lu)
      show "ce_content (fold (update_row owner repo branch) (us @ [u]) e) =
              column_of (up_content ((us @ [u]) ! k))"
        if "up_content ((us @ [u]) ! k) \<noteq> Undefined"
        using that c unfolding step same nk by simp
      show "ce_sha (fold (update_row owner repo branch) (us @ [u]) e) =
              column_of (up_sha ((us @ [u]) ! k))"
        if "up_sha ((us @ [u]) ! k) \<noteq> Undefined"
        using that h unfolding step same nk by simp
      show "ce_content (fold (update_row owner repo branch) (us @ [u]) e) =
              written (up_content ((us @ [u]) ! k)) (ce_content e)"
        if "\<forall>k'<k. up_path ((us @ [u]) ! k') \<noteq> ce_path e"
        using that fst below unfolding step same nk by simp
      show "ce_sha (fold (update_row owner repo branch) (us @ [u]) e) =
              written (up_sha ((us @ [u]) ! k)) (ce_sha e)"
        if "\<forall>k'<k. up_path ((us @ [u]) ! k') \<noteq> ce_path e"
        using that fst below unfolding step same nk by simp
    qed
  qed
qed

lemma updateCache_success:
  assumes "updateCache env s owner repo branch R M A token = (Inr (), s')"
    and "filesToFetch env s owner repo branch R M A \<noteq> []"
  shows "\<exists>response us s4.
           graphql_blobs env (tick (after_delete env s owner repo branch R M A)) token owner repo
             (expressions branch (filesToFetch env s owner repo branch R M A)) = Returns response \<and>
           build_updates env response 0 (filesToFetch env s owner repo branch R M A)
             (emit (RemoteCall (GraphqlBlobs token owner repo
                      (expressions branch (filesToFetch env s owner repo branch R M A))))
                (after_delete env s owner repo branch R M A)) = (Inr us, s4) \<and>
           s' = fold (apply_update env owner repo branch M) us s4"
  using assms
  by (auto simp: updateCache_eq Let_def split: remote.splits prod.splits sum.splits)

lemma table_after_delete:
  "cachedEntriesTable (after_delete env s owner repo branch R M A) =
     delete_removed owner repo branch
       (filter (\<lambda>f. directory_cached s owner repo branch (dirname env (rf_path f))) R)
       (cachedEntriesTable s)"
  by (simp add: after_delete_def Let_def filesToRemove_eq)




lemma loop_result:
  assumes len: "length us = length (Mc @ Ac)"
    and el: "\<forall>j<length (Mc @ Ac). \<exists>fd.
               response_file response j = Some fd \<and>
               us ! j = \<lparr>up_path = fc_path ((Mc @ Ac) ! j),
                         up_parentPath = dirname env (fc_path ((Mc @ Ac) ! j)),
                         up_content = fd_text fd, up_sha = fd_oid fd,
                         up_lastUpdated = Date_now env (t0 + j)\<rparr>"
    and md: "\<forall>f\<in>set Mc. list_ex (\<lambda>g. fc_path g = fc_path f) M"
    and ad: "\<forall>f\<in>set Ac. \<not> list_ex (\<lambda>g. fc_path g = fc_path f) M"
    and tbl: "cachedEntriesTable s4 = D"
    and T': "T' = cachedEntriesTable (fold (apply_update env owner repo branch M) us s4)"
  shows "length T' = length D + length Ac \<and>
     (\<forall>i<length D.
        same_identity (D ! i) (T' ! i) \<and>
        (if in_namespace owner repo branch (D ! i) \<and> ce_path (D ! i) \<in> fc_path ` set Mc
         then \<exists>k fd t. k < length Mc \<and> fc_path (Mc ! k) = ce_path (D ! i) \<and>
                (\<forall>k'<length Mc. k < k' \<longrightarrow> fc_path (Mc ! k') \<noteq> ce_path (D ! i)) \<and>
                k < length response \<and> response ! k = Some fd \<and>
                ce_lastUpdated (T' ! i) = Date_now env t \<and>
                (fd_text fd \<noteq> Undefined \<longrightarrow> ce_content (T' ! i) = column_of (fd_text fd)) \<and>
                (fd_oid fd \<noteq> Undefined \<longrightarrow> ce_sha (T' ! i) = column_of (fd_oid fd)) \<and>
                ((\<forall>k'<k. fc_path (Mc ! k') \<noteq> ce_path (D ! i)) \<longrightarrow>
                   ce_content (T' ! i) = written (fd_text fd) (ce_content (D ! i)) \<and>
                   ce_sha (T' ! i) = written (fd_oid fd) (ce_sha (D ! i)))
         else T' ! i = D ! i)) \<and>
     (\<forall>j<length Ac. \<exists>fd t.
        length Mc + j < length response \<and> response ! (length Mc + j) = Some fd \<and>
        ce_owner (T' ! (length D + j)) = owner \<and>
        ce_repo (T' ! (length D + j)) = repo \<and>
        ce_branch (T' ! (length D + j)) = branch \<and>
        ce_path (T' ! (length D + j)) = fc_path (Ac ! j) \<and>
        ce_parentPath (T' ! (length D + j)) = dirname env (fc_path (Ac ! j)) \<and>
        ce_name (T' ! (length D + j)) = basename env (fc_path (Ac ! j)) \<and>
        ce_type (T' ! (length D + j)) = ''blob'' \<and>
        ce_lastUpdated (T' ! (length D + j)) = Date_now env t \<and>
        (fd_text fd \<noteq> Undefined \<longrightarrow>
           ce_content (T' ! (length D + j)) = column_of (fd_text fd)) \<and>
        (fd_oid fd \<noteq> Undefined \<longrightarrow>
           ce_sha (T' ! (length D + j)) = column_of (fd_oid fd)))"
proof -
  define usM where "usM = take (length Mc) us"
  define usA where "usA = drop (length Mc) us"
  have us: "us = usM @ usA"
    by (simp add: usM_def usA_def)
  from len have lM: "length usM = length Mc" and lA: "length usA = length Ac"
    by (simp_all add: usM_def usA_def)
  have pM: "\<exists>fd. k < length response \<and> response ! k = Some fd \<and>
               usM ! k = \<lparr>up_path = fc_path (Mc ! k),
                          up_parentPath = dirname env (fc_path (Mc ! k)),
                          up_content = fd_text fd, up_sha = fd_oid fd,
                          up_lastUpdated = Date_now env (t0 + k)\<rparr>"
    if "k < length Mc" for k
  proof -
    from that have "k < length (Mc @ Ac)" by simp
    with el obtain fd where "response_file response k = Some fd"
      "us ! k = \<lparr>up_path = fc_path ((Mc @ Ac) ! k),
                 up_parentPath = dirname env (fc_path ((Mc @ Ac) ! k)),
                 up_content = fd_text fd, up_sha = fd_oid fd,
                 up_lastUpdated = Date_now env (t0 + k)\<rparr>"
      by blast
    with that response_file_Some [of response k fd] show ?thesis
      by (simp add: usM_def nth_append)
  qed
  have pA: "\<exists>fd. length Mc + j < length response \<and> response ! (length Mc + j) = Some fd \<and>
               usA ! j = \<lparr>up_path = fc_path (Ac ! j),
                          up_parentPath = dirname env (fc_path (Ac ! j)),
                          up_content = fd_text fd, up_sha = fd_oid fd,
                          up_lastUpdated = Date_now env (t0 + (length Mc + j))\<rparr>"
    if "j < length Ac" for j
  proof -
    from that have "length Mc + j < length (Mc @ Ac)" by simp
    with el obtain fd where "response_file response (length Mc + j) = Some fd"
      "us ! (length Mc + j) =
         \<lparr>up_path = fc_path ((Mc @ Ac) ! (length Mc + j)),
          up_parentPath = dirname env (fc_path ((Mc @ Ac) ! (length Mc + j))),
          up_content = fd_text fd, up_sha = fd_oid fd,
          up_lastUpdated = Date_now env (t0 + (length Mc + j))\<rparr>"
      by blast
    moreover from that len have "usA ! j = us ! (length Mc + j)"
      by (simp add: usA_def)
    ultimately show ?thesis
      using response_file_Some [of response "length Mc + j" fd] by simp
  qed
  have pathM: "up_path (usM ! k) = fc_path (Mc ! k)" if "k < length Mc" for k
    using pM [OF that] by auto
  have pathA: "up_path (usA ! j) = fc_path (Ac ! j)" if "j < length Ac" for j
    using pA [OF that] by auto
  have mM: "\<forall>u\<in>set usM. list_ex (\<lambda>f. fc_path f = up_path u) M"
  proof
    fix u assume "u \<in> set usM"
    then obtain k where "k < length Mc" "u = usM ! k"
      by (auto simp: in_set_conv_nth lM)
    with pathM md show "list_ex (\<lambda>f. fc_path f = up_path u) M"
      by simp
  qed
  have mA: "\<forall>u\<in>set usA. \<not> list_ex (\<lambda>f. fc_path f = up_path u) M"
  proof
    fix u assume "u \<in> set usA"
    then obtain j where "j < length Ac" "u = usA ! j"
      by (auto simp: in_set_conv_nth lA)
    with pathA ad show "\<not> list_ex (\<lambda>f. fc_path f = up_path u) M"
      by simp
  qed
  have T: "T' = map (fold (update_row owner repo branch) usM) D @
                map (new_row env owner repo branch) usA"
    unfolding T' us fold_apply_update_table [OF mM mA] tbl by (rule refl)
  have paths: "up_path ` set usM = fc_path ` set Mc"
  proof -
    have "map up_path usM = map fc_path Mc"
      by (rule nth_equalityI) (simp_all add: lM pathM)
    then have "set (map up_path usM) = set (map fc_path Mc)"
      by simp
    then show ?thesis by simp
  qed
  have old: "T' ! i = fold (update_row owner repo branch) usM (D ! i)" if "i < length D" for i
    using that by (simp add: T nth_append)
  have new: "T' ! (length D + j) = new_row env owner repo branch (usA ! j)"
    if "j < length Ac" for j
    using that by (simp add: T nth_append lA)
  have c1: "length T' = length D + length Ac"
    by (simp add: T lA)
  have c2: "same_identity (D ! i) (T' ! i) \<and>
        (if in_namespace owner repo branch (D ! i) \<and> ce_path (D ! i) \<in> fc_path ` set Mc
         then \<exists>k fd t. k < length Mc \<and> fc_path (Mc ! k) = ce_path (D ! i) \<and>
                (\<forall>k'<length Mc. k < k' \<longrightarrow> fc_path (Mc ! k') \<noteq> ce_path (D ! i)) \<and>
                k < length response \<and> response ! k = Some fd \<and>
                ce_lastUpdated (T' ! i) = Date_now env t \<and>
                (fd_text fd \<noteq> Undefined \<longrightarrow> ce_content (T' ! i) = column_of (fd_text fd)) \<and>
                (fd_oid fd \<noteq> Undefined \<longrightarrow> ce_sha (T' ! i) = column_of (fd_oid fd)) \<and>
                ((\<forall>k'<k. fc_path (Mc ! k') \<noteq> ce_path (D ! i)) \<longrightarrow>
                   ce_content (T' ! i) = written (fd_text fd) (ce_content (D ! i)) \<and>
                   ce_sha (T' ! i) = written (fd_oid fd) (ce_sha (D ! i)))
         else T' ! i = D ! i)"
    if i: "i < length D" for i
  proof (cases "in_namespace owner repo branch (D ! i) \<and> ce_path (D ! i) \<in> fc_path ` set Mc")
    case True
    then have "in_namespace owner repo branch (D ! i)" "ce_path (D ! i) \<in> up_path ` set usM"
      by (simp_all add: paths)
    from fold_update_row_hit [OF this, folded old [OF i]] obtain k where
      k: "k < length usM" "up_path (usM ! k) = ce_path (D ! i)"
      and last: "\<forall>k'<length usM. k < k' \<longrightarrow> up_path (usM ! k') \<noteq> ce_path (D ! i)"
      and lu: "ce_lastUpdated (T' ! i) = up_lastUpdated (usM ! k)"
      and c: "up_content (usM ! k) \<noteq> Undefined \<longrightarrow>
                ce_content (T' ! i) = column_of (up_content (usM ! k))"
      and h: "up_sha (usM ! k) \<noteq> Undefined \<longrightarrow> ce_sha (T' ! i) = column_of (up_sha (usM ! k))"
      and fst: "(\<forall>k'<k. up_path (usM ! k') \<noteq> ce_path (D ! i)) \<longrightarrow>
                  ce_content (T' ! i) = written (up_content (usM ! k)) (ce_content (D ! i)) \<and>
                  ce_sha (T' ! i) = written (up_sha (usM ! k)) (ce_sha (D ! i))"
      by blast
    from k(1) have kM: "k < length Mc" by (simp add: lM)
    from pM [OF kM] obtain fd where
      fd: "k < length response" "response ! k = Some fd"
      and uk: "usM ! k = \<lparr>up_path = fc_path (Mc ! k),
                   up_parentPath = dirname env (fc_path (Mc ! k)),
                   up_content = fd_text fd, up_sha = fd_oid fd,
                   up_lastUpdated = Date_now env (t0 + k)\<rparr>"
      by blast
    have later: "\<forall>k'<length Mc. k < k' \<longrightarrow> fc_path (Mc ! k') \<noteq> ce_path (D ! i)"
      using last by (simp add: lM pathM)
    have earlier: "\<forall>k'<k. up_path (usM ! k') \<noteq> ce_path (D ! i)"
      if "\<forall>k'<k. fc_path (Mc ! k') \<noteq> ce_path (D ! i)"
      using that kM by (simp add: pathM)
    have "\<exists>k fd t. k < length Mc \<and> fc_path (Mc ! k) = ce_path (D ! i) \<and>
                (\<forall>k'<length Mc. k < k' \<longrightarrow> fc_path (Mc ! k') \<noteq> ce_path (D ! i)) \<and>
                k < length response \<and> response ! k = Some fd \<and>
                ce_lastUpdated (T' ! i) = Date_now env t \<and>
                (fd_text fd \<noteq> Undefined \<longrightarrow> ce_content (T' ! i) = column_of (fd_text fd)) \<and>
                (fd_oid fd \<noteq> Undefined \<longrightarrow> ce_sha (T' ! i) = column_of (fd_oid fd)) \<and>
                ((\<forall>k'<k. fc_path (Mc ! k') \<noteq> ce_path (D ! i)) \<longrightarrow>
                   ce_content (T' ! i) = written (fd_text fd) (ce_content (D ! i)) \<and>
                   ce_sha (T' ! i) = written (fd_oid fd) (ce_sha (D ! i)))"
    proof -
      have 1: "fc_path (Mc ! k) = ce_path (D ! i)"
        using k(2) pathM [OF kM] by simp
      have 2: "ce_lastUpdated (T' ! i) = Date_now env (t0 + k)"
        using lu uk by simp
      have 3: "fd_text fd \<noteq> Undefined \<longrightarrow> ce_content (T' ! i) = column_of (fd_text fd)"
        using c uk by simp
      have 4: "fd_oid fd \<noteq> Undefined \<longrightarrow> ce_sha (T' ! i) = column_of (fd_oid fd)"
        using h uk by simp
      have 5: "(\<forall>k'<k. fc_path (Mc ! k') \<noteq> ce_path (D ! i)) \<longrightarrow>
                   ce_content (T' ! i) = written (fd_text fd) (ce_content (D ! i)) \<and>
                   ce_sha (T' ! i) = written (fd_oid fd) (ce_sha (D ! i))"
        using fst earlier uk by simp
      from kM 1 later fd 2 3 4 5 show ?thesis
        by blast
    qed
    moreover have "same_identity (D ! i) (T' ! i)"
      by (simp add: old [OF i] same_identity_fold)
    ultimately show ?thesis
      using True by simp
  next
    case False
    then have "\<not> (in_namespace owner repo branch (D ! i) \<and> ce_path (D ! i) \<in> up_path ` set usM)"
      by (simp add: paths)
    from fold_update_row_other [OF this] have "T' ! i = D ! i"
      by (simp add: old [OF i])
    with False show ?thesis
      by auto
  qed
  have c3: "\<exists>fd t.
        length Mc + j < length response \<and> response ! (length Mc + j) = Some fd \<and>
        ce_owner (T' ! (length D + j)) = owner \<and>
        ce_repo (T' ! (length D + j)) = repo \<and>
        ce_branch (T' ! (length D + j)) = branch \<and>
        ce_path (T' ! (length D + j)) = fc_path (Ac ! j) \<and>
        ce_parentPath (T' ! (length D + j)) = dirname env (fc_path (Ac ! j)) \<and>
        ce_name (T' ! (length D + j)) = basename env (fc_path (Ac ! j)) \<and>
        ce_type (T' ! (length D + j)) = ''blob'' \<and>
        ce_lastUpdated (T' ! (length D + j)) = Date_now env t \<and>
        (fd_text fd \<noteq> Undefined \<longrightarrow>
           ce_content (T' ! (length D + j)) = column_of (fd_text fd)) \<and>
        (fd_oid fd \<noteq> Undefined \<longrightarrow>
           ce_sha (T' ! (length D + j)) = column_of (fd_oid fd))"
    if j: "j < length Ac" for j
  proof -
    from pA [OF j] obtain fd where
      fd: "length Mc + j < length response" "response ! (length Mc + j) = Some fd"
      and uj: "usA ! j = \<lparr>up_path = fc_path (Ac ! j),
                   up_parentPath = dirname env (fc_path (Ac ! j)),
                   up_content = fd_text fd, up_sha = fd_oid fd,
                   up_lastUpdated = Date_now env (t0 + (length Mc + j))\<rparr>"
      by blast
    then show ?thesis
      by (intro exI [of _ fd] exI [of _ "t0 + (length Mc + j)"])
         (simp add: new [OF j] new_row_def)
  qed
  from c1 c2 c3 show ?thesis
    by blast
qed

text \<open>
  Claim C6. Let the paths of the modified and of the added files be disjoint, and let
  \<open>updateCache\<close> succeed. Write \<open>D\<close> for the cache table after the deletion step, \<open>Mc\<close> and
  \<open>Ac\<close> for the modified and the added files in cached directories, \<open>response\<close> for the
  objects the batched query answered, and \<open>T'\<close> for the final cache table. Then \<open>T'\<close> is
  \<open>D\<close>, row by row and in place, followed by one new row for each file of \<open>Ac\<close>.

  A row of \<open>D\<close> keeps its namespace, path, parent path, name and type. It is unchanged
  altogether unless it is a row of the namespace for a path of \<open>Mc\<close>. Such a row gets a
  clock reading as its time stamp, and its content and checksum come from the object
  answered for the last file of \<open>Mc\<close> with that path: a text or checksum that the object
  has (a value or \<^verbatim>\<open>null\<close>) is stored, and one that the object lacks leaves the column as
  the earlier statements of the call left it, which is the column of \<open>D\<close> when no earlier
  file of \<open>Mc\<close> has that path.

  The new row for an added file has the namespace of the call, the path of the file,
  \<open>dirname\<close> of the path as parent path, \<open>basename\<close> of the path as name, the type \<open>blob\<close>, a
  clock reading as time stamp, and the text and checksum of the object answered for the
  file where the object has them.
\<close>

theorem reconcile_updates_in_place_and_inserts:
  assumes disj: "fc_path ` set M \<inter> fc_path ` set A = {}"
    and ok: "updateCache env s owner repo branch R M A token = (Inr (), s')"
    and Mc: "Mc = filter (\<lambda>f. directory_cached s owner repo branch (dirname env (fc_path f))) M"
    and Ac: "Ac = filter (\<lambda>f. directory_cached s owner repo branch (dirname env (fc_path f))) A"
    and D: "D = delete_removed owner repo branch
                  (filter (\<lambda>f. directory_cached s owner repo branch (dirname env (rf_path f))) R)
                  (cachedEntriesTable s)"
    and T': "T' = cachedEntriesTable s'"
  shows "\<exists>response.
     (Mc @ Ac = [] \<or>
      graphql_blobs env (tick (after_delete env s owner repo branch R M A)) token owner repo
        (map (\<lambda>f. branch @ '':'' @ fc_path f) (Mc @ Ac)) = Returns response) \<and>
     length T' = length D + length Ac \<and>
     (\<forall>i<length D.
        same_identity (D ! i) (T' ! i) \<and>
        (if in_namespace owner repo branch (D ! i) \<and> ce_path (D ! i) \<in> fc_path ` set Mc
         then \<exists>k fd t. k < length Mc \<and> fc_path (Mc ! k) = ce_path (D ! i) \<and>
                (\<forall>k'<length Mc. k < k' \<longrightarrow> fc_path (Mc ! k') \<noteq> ce_path (D ! i)) \<and>
                k < length response \<and> response ! k = Some fd \<and>
                ce_lastUpdated (T' ! i) = Date_now env t \<and>
                (fd_text fd \<noteq> Undefined \<longrightarrow> ce_content (T' ! i) = column_of (fd_text fd)) \<and>
                (fd_oid fd \<noteq> Undefined \<longrightarrow> ce_sha (T' ! i) = column_of (fd_oid fd)) \<and>
                ((\<forall>k'<k. fc_path (Mc ! k') \<noteq> ce_path (D ! i)) \<longrightarrow>
                   ce_content (T' ! i) = written (fd_text fd) (ce_content (D ! i)) \<and>
                   ce_sha (T' ! i) = written (fd_oid fd) (ce_sha (D ! i)))
         else T' ! i = D ! i)) \<and>
     (\<forall>j<length Ac. \<exists>fd t.
        length Mc + j < length response \<and> response ! (length Mc + j) = Some fd \<and>
        ce_owner (T' ! (length D + j)) = owner \<and>
        ce_repo (T' ! (length D + j)) = repo \<and>
        ce_branch (T' ! (length D + j)) = branch \<and>
        ce_path (T' ! (length D + j)) = fc_path (Ac ! j) \<and>
        ce_parentPath (T' ! (length D + j)) = dirname env (fc_path (Ac ! j)) \<and>
        ce_name (T' ! (length D + j)) = basename env (fc_path (Ac ! j)) \<and>
        ce_type (T' ! (length D + j)) = ''blob'' \<and>
        ce_lastUpdated (T' ! (length D + j)) = Date_now env t \<and>
        (fd_text fd \<noteq> Undefined \<longrightarrow>
           ce_content (T' ! (length D + j)) = column_of (fd_text fd)) \<and>
        (fd_oid fd \<noteq> Undefined \<longrightarrow>
           ce_sha (T' ! (length D + j)) = column_of (fd_oid fd)))"
proof -
  let ?s2 = "after_delete env s owner repo branch R M A"
  have f: "filesToFetch env s owner repo branch R M A = Mc @ Ac"
    by (simp add: filesToFetch_eq Mc Ac)
  have tD: "cachedEntriesTable ?s2 = D"
    by (simp add: table_after_delete D)
  show ?thesis
  proof (cases "Mc @ Ac = []")
    case True
    with f ok have "s' = ?s2"
      by (simp add: updateCache_no_fetch)
    with tD T' have "T' = D"
      by simp
    with True show ?thesis
      by simp
  next
    case False
    with f have ne: "filesToFetch env s owner repo branch R M A \<noteq> []"
      by simp
    let ?s3 = "emit (RemoteCall (GraphqlBlobs token owner repo (expressions branch (Mc @ Ac)))) ?s2"
    from updateCache_success [OF ok ne] obtain response us s4 where
      g: "graphql_blobs env (tick ?s2) token owner repo (expressions branch (Mc @ Ac)) =
            Returns response"
      and b: "build_updates env response 0 (Mc @ Ac) ?s3 = (Inr us, s4)"
      and s': "s' = fold (apply_update env owner repo branch M) us s4"
      unfolding f by blast
    from build_updates_Inr [OF b] have
      len: "length us = length (Mc @ Ac)"
      and s4: "s4 = ?s3\<lparr>trace := trace ?s3 @ replicate (length (Mc @ Ac)) ClockRead\<rparr>"
      and el: "\<forall>j<length (Mc @ Ac). \<exists>fd.
               response_file response (0 + j) = Some fd \<and>
               us ! j = \<lparr>up_path = fc_path ((Mc @ Ac) ! j),
                         up_parentPath = dirname env (fc_path ((Mc @ Ac) ! j)),
                         up_content = fd_text fd, up_sha = fd_oid fd,
                         up_lastUpdated = Date_now env (tick ?s3 + j)\<rparr>"
      by blast+
    from el have el': "\<forall>j<length (Mc @ Ac). \<exists>fd.
               response_file response j = Some fd \<and>
               us ! j = \<lparr>up_path = fc_path ((Mc @ Ac) ! j),
                         up_parentPath = dirname env (fc_path ((Mc @ Ac) ! j)),
                         up_content = fd_text fd, up_sha = fd_oid fd,
                         up_lastUpdated = Date_now env (tick ?s3 + j)\<rparr>"
      by simp
    have md: "\<forall>f\<in>set Mc. list_ex (\<lambda>g. fc_path g = fc_path f) M"
      by (auto simp: Mc list_ex_iff)
    have ad: "\<forall>f\<in>set Ac. \<not> list_ex (\<lambda>g. fc_path g = fc_path f) M"
      using disj by (auto simp: Ac list_ex_iff)
    from s4 tD have tbl: "cachedEntriesTable s4 = D"
      by (simp add: emit_def)
    from T' s' have T: "T' = cachedEntriesTable (fold (apply_update env owner repo branch M) us s4)"
      by simp
    from g have "Mc @ Ac = [] \<or>
      graphql_blobs env (tick ?s2) token owner repo
        (map (\<lambda>f. branch @ '':'' @ fc_path f) (Mc @ Ac)) = Returns response"
      by (simp add: expressions_def)
    with loop_result [OF len el' md ad tbl T] show ?thesis
      by blast
  qed
qed


theorem reconcile_updates_in_place_and_inserts_witness:
  "length (cachedEntriesTable (snd (updateCache env0 world0 ''acme'' ''site'' ''main'' []
      [\<lparr>fc_path = ''a/c.txt'', fc_sha = ''c1''\<rparr>] [\<lparr>fc_path = ''a/d.txt'', fc_sha = ''d1''\<rparr>]
      ''tok''))) = 3 \<and>
   cachedEntriesTable (snd (updateCache env0 world0 ''acme'' ''site'' ''main'' []
      [\<lparr>fc_path = ''a/c.txt'', fc_sha = ''c1''\<rparr>] [\<lparr>fc_path = ''a/d.txt'', fc_sha = ''d1''\<rparr>]
      ''tok'')) ! 0 = entry_b \<and>
   same_identity entry_c
     (cachedEntriesTable (snd (updateCache env0 world0 ''acme'' ''site'' ''main'' []
        [\<lparr>fc_path = ''a/c.txt'', fc_sha = ''c1''\<rparr>] [\<lparr>fc_path = ''a/d.txt'', fc_sha = ''d1''\<rparr>]
        ''tok'')) ! 1) \<and>
   ce_content
     (cachedEntriesTable (snd (updateCache env0 world0 ''acme'' ''site'' ''main'' []
        [\<lparr>fc_path = ''a/c.txt'', fc_sha = ''c1''\<rparr>] [\<lparr>fc_path = ''a/d.txt'', fc_sha = ''d1''\<rparr>]
        ''tok'')) ! 1) = Some ''text of main:a/c.txt'' \<and>
   same_identity
     \<lparr>ce_owner = ''acme'', ce_repo = ''site'', ce_branch = ''main'', ce_path = ''a/d.txt'',
      ce_parentPath = ''a'', ce_name = ''d.txt'', ce_type = ''blob'',
      ce_content = None, ce_sha = None, ce_lastUpdated = 0\<rparr>
     (cachedEntriesTable (snd (updateCache env0 world0 ''acme'' ''site'' ''main'' []
        [\<lparr>fc_path = ''a/c.txt'', fc_sha = ''c1''\<rparr>] [\<lparr>fc_path = ''a/d.txt'', fc_sha = ''d1''\<rparr>]
        ''tok'')) ! 2) \<and>
   ce_content
     (cachedEntriesTable (snd (updateCache env_no_blob world0 ''acme'' ''site'' ''main'' []
        [\<lparr>fc_path = ''a/c.txt'', fc_sha = ''c1''\<rparr>] [] ''tok'')) ! 1) = Some ''old c'' \<and>
   ce_sha
     (cachedEntriesTable (snd (updateCache env_no_blob world0 ''acme'' ''site'' ''main'' []
        [\<lparr>fc_path = ''a/c.txt'', fc_sha = ''c1''\<rparr>] [] ''tok'')) ! 1) = Some ''c0''"
proof -
  let ?M = "[\<lparr>fc_path = ''a/c.txt'', fc_sha = ''c1''\<rparr>]"
  let ?A = "[\<lparr>fc_path = ''a/d.txt'', fc_sha = ''d1''\<rparr>]"
  let ?run = "updateCache env0 world0 ''acme'' ''site'' ''main'' [] ?M ?A ''tok''"
  let ?T = "cachedEntriesTable (snd ?run)"
  let ?run' = "updateCache env_no_blob world0 ''acme'' ''site'' ''main'' [] ?M [] ''tok''"
  let ?T' = "cachedEntriesTable (snd ?run')"
  let ?fc = "\<lparr>fd_text = Value ''text of main:a/c.txt'', fd_oid = Value ''0a1b''\<rparr>"
  let ?fd = "\<lparr>fd_text = Value ''text of main:a/d.txt'', fd_oid = Value ''0a1b''\<rparr>"
  let ?fn = "\<lparr>fd_text = Undefined, fd_oid = Undefined\<rparr> :: FileData"
  have d: "dirname env0 = posix_dirname" "basename env0 = posix_basename"
    "dirname env_no_blob = posix_dirname"
    by (simp_all add: env0_def env_no_blob_def)
  have c: "directory_cached world0 ''acme'' ''site'' ''main'' ''a''"
    by (simp add: directory_cached_def world0_def entry_b_def in_namespace_def)
  have p: "posix_dirname ''a/c.txt'' = ''a''" "posix_dirname ''a/d.txt'' = ''a''"
    "posix_basename ''a/d.txt'' = ''d.txt''"
    by (simp_all add: posix_dirname_def posix_basename_def)
  have hit: "in_namespace ''acme'' ''site'' ''main'' entry_c"
    "ce_path entry_c = ''a/c.txt''" "ce_path entry_b = ''a/b.txt''"
    "ce_content entry_c = Some ''old c''" "ce_sha entry_c = Some ''c0''"
    by (simp_all add: entry_b_def entry_c_def in_namespace_def)
  have disj: "fc_path ` set ?M \<inter> fc_path ` set ?A = {}" "fc_path ` set ?M \<inter> fc_path ` set [] = {}"
    by simp_all
  have Mc: "?M = filter (\<lambda>f. directory_cached world0 ''acme'' ''site'' ''main''
                               (dirname env0 (fc_path f))) ?M"
    and Ac: "?A = filter (\<lambda>f. directory_cached world0 ''acme'' ''site'' ''main''
                               (dirname env0 (fc_path f))) ?A"
    and Mc': "?M = filter (\<lambda>f. directory_cached world0 ''acme'' ''site'' ''main''
                               (dirname env_no_blob (fc_path f))) ?M"
    and Ac': "[] = filter (\<lambda>f. directory_cached world0 ''acme'' ''site'' ''main''
                               (dirname env_no_blob (fc_path f))) []"
    by (simp_all add: d p c)
  have D: "[entry_b, entry_c] =
             delete_removed ''acme'' ''site'' ''main''
               (filter (\<lambda>f. directory_cached world0 ''acme'' ''site'' ''main''
                               (dirname env0 (rf_path f))) [])
               (cachedEntriesTable world0)"
    and D': "[entry_b, entry_c] =
             delete_removed ''acme'' ''site'' ''main''
               (filter (\<lambda>f. directory_cached world0 ''acme'' ''site'' ''main''
                               (dirname env_no_blob (rf_path f))) [])
               (cachedEntriesTable world0)"
    by (simp_all add: world0_def)
  have f: "filesToFetch env0 world0 ''acme'' ''site'' ''main'' [] ?M ?A = ?M @ ?A"
    "filesToFetch env_no_blob world0 ''acme'' ''site'' ''main'' [] ?M [] = ?M"
    by (simp_all add: filesToFetch_eq d p c)
  have g: "graphql_blobs env0 t ''tok'' ''acme'' ''site'' [''main:a/c.txt'', ''main:a/d.txt''] =
             Returns [Some ?fc, Some ?fd]"
    and g': "graphql_blobs env_no_blob t ''tok'' ''acme'' ''site'' [''main:a/c.txt''] =
             Returns [Some ?fn]" for t
    by (simp_all add: env0_def env_no_blob_def)
  have "fst ?run = Inr ()"
    unfolding updateCache_eq Let_def f
    by (simp add: g expressions_def response_file_def Let_def)
  then have ok: "?run = (Inr (), snd ?run)"
    by (metis prod.collapse)
  have "fst ?run' = Inr ()"
    unfolding updateCache_eq Let_def f
    by (simp add: g' expressions_def response_file_def Let_def)
  then have ok': "?run' = (Inr (), snd ?run')"
    by (metis prod.collapse)

  from reconcile_updates_in_place_and_inserts [OF disj(1) ok Mc Ac D refl]
  obtain response where
    r: "?M @ ?A = [] \<or>
        graphql_blobs env0 (tick (after_delete env0 world0 ''acme'' ''site'' ''main'' [] ?M ?A))
          ''tok'' ''acme'' ''site'' (map (\<lambda>f. ''main'' @ '':'' @ fc_path f) (?M @ ?A)) =
        Returns response"
    and len: "length ?T = length [entry_b, entry_c] + length ?A"
    and old: "\<And>i. i < length [entry_b, entry_c] \<Longrightarrow>
        same_identity ([entry_b, entry_c] ! i) (?T ! i) \<and>
        (if in_namespace ''acme'' ''site'' ''main'' ([entry_b, entry_c] ! i) \<and>
            ce_path ([entry_b, entry_c] ! i) \<in> fc_path ` set ?M
         then \<exists>k fd t. k < length ?M \<and> fc_path (?M ! k) = ce_path ([entry_b, entry_c] ! i) \<and>
                (\<forall>k'<length ?M. k < k' \<longrightarrow> fc_path (?M ! k') \<noteq> ce_path ([entry_b, entry_c] ! i)) \<and>
                k < length response \<and> response ! k = Some fd \<and>
                ce_lastUpdated (?T ! i) = Date_now env0 t \<and>
                (fd_text fd \<noteq> Undefined \<longrightarrow> ce_content (?T ! i) = column_of (fd_text fd)) \<and>
                (fd_oid fd \<noteq> Undefined \<longrightarrow> ce_sha (?T ! i) = column_of (fd_oid fd)) \<and>
                ((\<forall>k'<k. fc_path (?M ! k') \<noteq> ce_path ([entry_b, entry_c] ! i)) \<longrightarrow>
                   ce_content (?T ! i) = written (fd_text fd) (ce_content ([entry_b, entry_c] ! i)) \<and>
                   ce_sha (?T ! i) = written (fd_oid fd) (ce_sha ([entry_b, entry_c] ! i)))
         else ?T ! i = [entry_b, entry_c] ! i)"
    and new: "\<And>j. j < length ?A \<Longrightarrow> \<exists>fd t.
        length ?M + j < length response \<and> response ! (length ?M + j) = Some fd \<and>
        ce_owner (?T ! (length [entry_b, entry_c] + j)) = ''acme'' \<and>
        ce_repo (?T ! (length [entry_b, entry_c] + j)) = ''site'' \<and>
        ce_branch (?T ! (length [entry_b, entry_c] + j)) = ''main'' \<and>
        ce_path (?T ! (length [entry_b, entry_c] + j)) = fc_path (?A ! j) \<and>
        ce_parentPath (?T ! (length [entry_b, entry_c] + j)) = dirname env0 (fc_path (?A ! j)) \<and>
        ce_name (?T ! (length [entry_b, entry_c] + j)) = basename env0 (fc_path (?A ! j)) \<and>
        ce_type (?T ! (length [entry_b, entry_c] + j)) = ''blob'' \<and>
        ce_lastUpdated (?T ! (length [entry_b, entry_c] + j)) = Date_now env0 t \<and>
        (fd_text fd \<noteq> Undefined \<longrightarrow>
           ce_content (?T ! (length [entry_b, entry_c] + j)) = column_of (fd_text fd)) \<and>
        (fd_oid fd \<noteq> Undefined \<longrightarrow>
           ce_sha (?T ! (length [entry_b, entry_c] + j)) = column_of (fd_oid fd))"
    by blast
  from r have resp: "response = [Some ?fc, Some ?fd]"
    by (simp add: g)
  from len have 1: "length ?T = 3"
    by simp
  from old [of 0] have 2: "?T ! 0 = entry_b"
    by (simp add: hit)
  from old [of 1] have 3: "same_identity entry_c (?T ! 1)"
    by simp
  from old [of 1] have 4: "ce_content (?T ! 1) = Some ''text of main:a/c.txt''"
    by (auto simp: hit resp column_of_def)
  from new [of 0] have "same_identity
     \<lparr>ce_owner = ''acme'', ce_repo = ''site'', ce_branch = ''main'', ce_path = ''a/d.txt'',
      ce_parentPath = ''a'', ce_name = ''d.txt'', ce_type = ''blob'',
      ce_content = None, ce_sha = None, ce_lastUpdated = 0\<rparr> (?T ! Suc (Suc 0))"
    by (auto simp: same_identity_def d p)
  then have 5: "same_identity
     \<lparr>ce_owner = ''acme'', ce_repo = ''site'', ce_branch = ''main'', ce_path = ''a/d.txt'',
      ce_parentPath = ''a'', ce_name = ''d.txt'', ce_type = ''blob'',
      ce_content = None, ce_sha = None, ce_lastUpdated = 0\<rparr> (?T ! 2)"
    by (simp add: numeral_2_eq_2)

  from reconcile_updates_in_place_and_inserts [OF disj(2) ok' Mc' Ac' D' refl]
  obtain response' where
    r': "?M @ [] = [] \<or>
        graphql_blobs env_no_blob
          (tick (after_delete env_no_blob world0 ''acme'' ''site'' ''main'' [] ?M []))
          ''tok'' ''acme'' ''site'' (map (\<lambda>f. ''main'' @ '':'' @ fc_path f) (?M @ [])) =
        Returns response'"
    and old': "\<And>i. i < length [entry_b, entry_c] \<Longrightarrow>
        same_identity ([entry_b, entry_c] ! i) (?T' ! i) \<and>
        (if in_namespace ''acme'' ''site'' ''main'' ([entry_b, entry_c] ! i) \<and>
            ce_path ([entry_b, entry_c] ! i) \<in> fc_path ` set ?M
         then \<exists>k fd t. k < length ?M \<and> fc_path (?M ! k) = ce_path ([entry_b, entry_c] ! i) \<and>
                (\<forall>k'<length ?M. k < k' \<longrightarrow> fc_path (?M ! k') \<noteq> ce_path ([entry_b, entry_c] ! i)) \<and>
                k < length response' \<and> response' ! k = Some fd \<and>
                ce_lastUpdated (?T' ! i) = Date_now env_no_blob t \<and>
                (fd_text fd \<noteq> Undefined \<longrightarrow> ce_content (?T' ! i) = column_of (fd_text fd)) \<and>
                (fd_oid fd \<noteq> Undefined \<longrightarrow> ce_sha (?T' ! i) = column_of (fd_oid fd)) \<and>
                ((\<forall>k'<k. fc_path (?M ! k') \<noteq> ce_path ([entry_b, entry_c] ! i)) \<longrightarrow>
                   ce_content (?T' ! i) = written (fd_text fd) (ce_content ([entry_b, entry_c] ! i)) \<and>
                   ce_sha (?T' ! i) = written (fd_oid fd) (ce_sha ([entry_b, entry_c] ! i)))
         else ?T' ! i = [entry_b, entry_c] ! i)"
    by blast
  from r' have resp': "response' = [Some ?fn]"
    by (simp add: g')
  from old' [of 1] have 6: "ce_content (?T' ! 1) = Some ''old c''"
    and 7: "ce_sha (?T' ! 1) = Some ''c0''"
    by (auto simp: hit resp' written_def)
  from 1 2 3 4 5 6 7 show ?thesis
    by (intro conjI)
qed


end
